theory Spec2Isabelle
  imports Complex_Main "HOL-Library.Log_Nat"
begin

section \<open>Palette identifiers: \<open>generateColorId\<close> (utils.ts)\<close>

text \<open>
  JavaScript's \<open>Number.prototype.toString(radix)\<close> on a non-negative integer: the digits
  \<open>0..9\<close> and then the lower-case letters, most significant digit first, no leading zero
  (and \<open>"0"\<close> for zero). This is the text for the integers the program prints (loop
  counters up to 99, array lengths, HTTP status codes, colour channels), all far below
  \<open>10^21\<close>, from where \<open>toString\<close> would switch to exponent notation.
\<close>

definition digit_chars :: string where
  "digit_chars = ''0123456789abcdefghijklmnopqrstuvwxyz''"

definition digit_char :: "nat \<Rightarrow> char" where
  "digit_char d = digit_chars ! d"

fun toString10 :: "nat \<Rightarrow> string" where
  "toString10 n =
     (if n < 10 then [digit_char n]
      else toString10 (n div 10) @ [digit_char (n mod 10)])"

declare toString10.simps [simp del]

text \<open>\<open>Array.prototype.includes\<close> on an array of strings.\<close>

definition array_includes :: "string list \<Rightarrow> string \<Rightarrow> bool" where
  "array_includes xs s = (s \<in> set xs)"

text \<open>
  The first loop of \<open>generateColorId\<close>:
  \<^verbatim>\<open>for (let i = 1; i <= 99; i++) { const id = i.toString();
     if (!existingIds.includes(id)) return id; }\<close>
  \<open>None\<close> means that the loop ran to its end without returning.
\<close>

function loop_numeric :: "string list \<Rightarrow> nat \<Rightarrow> string option" where
  "loop_numeric existingIds i =
     (if i \<le> 99 then
        (let ident = toString10 i in
         if \<not> array_includes existingIds ident then Some ident
         else loop_numeric existingIds (i + 1))
      else None)"
  by pat_completeness auto
termination
  by (relation "measure (\<lambda>(ids, i). 100 - i)") auto

declare loop_numeric.simps [simp del]

definition letters :: string where
  "letters = ''ABCDEFGHIJKLMNOPQRSTUVWXYZ''"

text \<open>The second loop: \<^verbatim>\<open>for (const letter of letters) { if (!existingIds.includes(letter)) return letter; }\<close>\<close>

fun loop_letters :: "string list \<Rightarrow> string \<Rightarrow> string option" where
  "loop_letters existingIds [] = None"
| "loop_letters existingIds (letter # rest) =
     (if \<not> array_includes existingIds [letter] then Some [letter]
      else loop_letters existingIds rest)"

text \<open>
  The last resort of the source is
  \<^verbatim>\<open>Math.random().toString(36).substring(2, 5).toUpperCase()\<close>.
  The text \<open>Math.random().toString(36)\<close> comes from the environment (it reads \<open>0.\<close>
  followed by digits in base 36, or \<open>0\<close>); it is the parameter \<open>random_text\<close>.
  \<open>substring\<close> and \<open>toUpperCase\<close> are applied to it as in the source; \<open>toUpperCase\<close>
  is given on the characters such a text holds.
\<close>

definition substring :: "nat \<Rightarrow> nat \<Rightarrow> string \<Rightarrow> string" where
  "substring a b s = take (max a b - min a b) (drop (min a b) s)"

definition toUpperCase_char :: "char \<Rightarrow> char" where
  "toUpperCase_char c =
     (case map_of (zip ''abcdefghijklmnopqrstuvwxyz'' ''ABCDEFGHIJKLMNOPQRSTUVWXYZ'') c of
        Some u \<Rightarrow> u
      | None \<Rightarrow> c)"

definition toUpperCase :: "string \<Rightarrow> string" where
  "toUpperCase s = map toUpperCase_char s"

definition generateColorId :: "string list \<Rightarrow> string \<Rightarrow> string" where
  "generateColorId existingIds random_text =
     (case loop_numeric existingIds 1 of
        Some ident \<Rightarrow> ident
      | None \<Rightarrow>
         (case loop_letters existingIds letters of
            Some letter \<Rightarrow> letter
          | None \<Rightarrow> toUpperCase (substring 2 5 random_text)))"

text \<open>Reading a decimal numeral back, used to show that \<open>toString10\<close> is injective.\<close>

definition digit_val :: "char \<Rightarrow> nat" where
  "digit_val c = of_char c - 48"

definition read10 :: "string \<Rightarrow> nat" where
  "read10 s = foldl (\<lambda>a c. 10 * a + digit_val c) 0 s"

section \<open>Colour conversion: \<open>rgbToHex\<close> and \<open>hexToRgb\<close> (utils.ts)\<close>

text \<open>A thrown \<open>new Error(message)\<close>.\<close>

datatype js_error = Error string

text \<open>\<open>c.toString(16).padStart(2, '0')\<close> for each channel, joined after \<open>'#'\<close>.\<close>

fun toString16 :: "nat \<Rightarrow> string" where
  "toString16 n =
     (if n < 16 then [digit_char n]
      else toString16 (n div 16) @ [digit_char (n mod 16)])"

declare toString16.simps [simp del]

definition padStart :: "nat \<Rightarrow> char \<Rightarrow> string \<Rightarrow> string" where
  "padStart n c s = replicate (n - length s) c @ s"

definition rgbToHex :: "nat \<times> nat \<times> nat \<Rightarrow> string" where
  "rgbToHex rgb =
     (case rgb of (r, g, b) \<Rightarrow>
        ''#'' @ concat (map (\<lambda>c. padStart 2 (CHR ''0'') (toString16 c)) [r, g, b]))"

text \<open>
  The regular expression of \<open>hexToRgb\<close>, \<^verbatim>\<open>/^#?([a-f\d]{2})([a-f\d]{2})([a-f\d]{2})$/i\<close>:
  the class \<open>[a-f\d]\<close> under the flag \<open>i\<close> by code point, then the optional \<open>#\<close>
  and three groups of two class characters up to the end of the input.
\<close>

definition hex_class :: "char \<Rightarrow> bool" where
  "hex_class c =
     (let n = (of_char c :: nat) in
      (97 \<le> n \<and> n \<le> 102) \<or> (65 \<le> n \<and> n \<le> 70) \<or> (48 \<le> n \<and> n \<le> 57))"

definition hex_regex_exec :: "string \<Rightarrow> (string \<times> string \<times> string) option" where
  "hex_regex_exec hex =
     (let body = (case hex of c # rest \<Rightarrow> if c = CHR ''#'' then rest else hex | [] \<Rightarrow> hex) in
      if length body = 6 \<and> list_all hex_class body
      then Some (take 2 body, take 2 (drop 2 body), drop 4 body)
      else None)"

text \<open>\<open>parseInt(group, 16)\<close> on a capture group, which holds hexadecimal digits only.\<close>

definition hex_digit_val :: "char \<Rightarrow> nat" where
  "hex_digit_val c =
     (let n = (of_char c :: nat) in
      if 97 \<le> n then n - 87 else if 65 \<le> n then n - 55 else n - 48)"

definition parseInt16 :: "string \<Rightarrow> nat" where
  "parseInt16 s = foldl (\<lambda>a c. 16 * a + hex_digit_val c) 0 s"

definition hexToRgb :: "string \<Rightarrow> js_error + nat \<times> nat \<times> nat" where
  "hexToRgb hex =
     (case hex_regex_exec hex of
        None \<Rightarrow> Inl (Error ''Invalid hex color'')
      | Some (g1, g2, g3) \<Rightarrow> Inr (parseInt16 g1, parseInt16 g2, parseInt16 g3))"

text \<open>
  The wording of the specification: an optional \<open>#\<close> followed by exactly six
  hexadecimal digits.
\<close>

definition hexadecimal_digit :: "char \<Rightarrow> bool" where
  "hexadecimal_digit c = (c \<in> set ''0123456789abcdefABCDEF'')"

definition hex_color_syntax :: "string \<Rightarrow> bool" where
  "hex_color_syntax s =
     (\<exists>ds. length ds = 6 \<and> (\<forall>c \<in> set ds. hexadecimal_digit c) \<and> (s = ds \<or> s = CHR ''#'' # ds))"

section \<open>The generation client: \<open>generatePaintByNumber\<close> (utils.ts)\<close>

text \<open>
  Arrays and objects are JavaScript references. The store is a list of objects, an
  address is an index into it, and allocation appends. A palette is the address of an
  array of addresses of \<open>PaletteColor\<close> objects \<open>{id, rgb, note?}\<close>, whose \<open>rgb\<close> is the
  address of a three-element array of channel values.
\<close>

type_synonym addr = nat

datatype obj =
    ArrayObj "addr list"
  | ColorObj string addr "string option"
  | RgbObj nat nat nat

type_synonym heap = "obj list"

definition lookup :: "heap \<Rightarrow> addr \<Rightarrow> obj option" where
  "lookup h a = (if a < length h then Some (h ! a) else None)"

definition alloc :: "heap \<Rightarrow> obj \<Rightarrow> addr \<times> heap" where
  "alloc h ob = (length h, h @ [ob])"

text \<open>
  The JSON document that \<open>JSON.stringify\<close> writes, as a tree: the text it produces is
  determined by this tree. A property whose value is \<open>undefined\<close> is left out.
\<close>

datatype json =
    JNum nat
  | JStr string
  | JArr "json list"
  | JObj "(string \<times> json) list"

text \<open>\<open>color.note || ''\<close>: an absent or empty note gives the empty string.\<close>

definition note_or_empty :: "string option \<Rightarrow> string" where
  "note_or_empty n = (case n of None \<Rightarrow> '''' | Some t \<Rightarrow> t)"

text \<open>
  \<^verbatim>\<open>palette.map(color => ({ id: color.id, rgb: color.rgb, note: color.note || '' }))\<close>:
  one new object per entry, holding the same \<open>rgb\<close> reference. \<open>None\<close> is the
  \<open>TypeError\<close> of reading a property from something that is not a palette entry.
\<close>

fun palette_map_format :: "heap \<Rightarrow> addr list \<Rightarrow> (addr list \<times> heap) option" where
  "palette_map_format h [] = Some ([], h)"
| "palette_map_format h (c # cs) =
     (case lookup h c of
        Some (ColorObj i r n) \<Rightarrow>
          (case alloc h (ColorObj i r (Some (note_or_empty n))) of (a, h1) \<Rightarrow>
             (case palette_map_format h1 cs of
                Some (as, h2) \<Rightarrow> Some (a # as, h2)
              | None \<Rightarrow> None))
      | _ \<Rightarrow> None)"

definition stringify_color :: "heap \<Rightarrow> addr \<Rightarrow> json option" where
  "stringify_color h a =
     (case lookup h a of
        Some (ColorObj i r n) \<Rightarrow>
          (case lookup h r of
             Some (RgbObj x y z) \<Rightarrow>
               Some (JObj ([(''id'', JStr i), (''rgb'', JArr [JNum x, JNum y, JNum z])]
                           @ (case n of None \<Rightarrow> [] | Some t \<Rightarrow> [(''note'', JStr t)])))
           | _ \<Rightarrow> None)
      | _ \<Rightarrow> None)"

definition JSON_stringify :: "heap \<Rightarrow> addr \<Rightarrow> json option" where
  "JSON_stringify h p =
     (case lookup h p of
        Some (ArrayObj cs) \<Rightarrow> map_option JArr (those (map (stringify_color h) cs))
      | _ \<Rightarrow> None)"

text \<open>\<open>formatPaletteForAPI\<close>: the new array \<open>formatted\<close> is allocated, then serialized.\<close>

definition formatPaletteForAPI :: "heap \<Rightarrow> addr \<Rightarrow> (json \<times> heap) option" where
  "formatPaletteForAPI h palette =
     (case lookup h palette of
        Some (ArrayObj cs) \<Rightarrow>
          (case palette_map_format h cs of
             Some (as, h1) \<Rightarrow>
               (case alloc h1 (ArrayObj as) of (formatted, h2) \<Rightarrow>
                  (case JSON_stringify h2 formatted of
                     Some j \<Rightarrow> Some (j, h2)
                   | None \<Rightarrow> None))
           | None \<Rightarrow> None)
      | _ \<Rightarrow> None)"

text \<open>The \<open>File\<close> handed to the client; a missing file is \<open>None\<close>.\<close>

record File =
  file_name :: string
  file_type :: string

text \<open>
  Values of the untyped response object (\<open>data as any\<close>), with JavaScript truthiness and
  the operator \<open>||\<close>, which yields its left operand when that is truthy and its right
  operand otherwise. A field that is absent reads as \<open>undefined\<close>. Numbers are the
  integers the service sends (counts and sizes).
\<close>

datatype jsval = Undefined | Null | Bool bool | Num int | Str string
  | Dimensions int int

definition truthy :: "jsval \<Rightarrow> bool" where
  "truthy v =
     (case v of
        Undefined \<Rightarrow> False
      | Null \<Rightarrow> False
      | Bool b \<Rightarrow> b
      | Num n \<Rightarrow> n \<noteq> 0
      | Str t \<Rightarrow> t \<noteq> []
      | Dimensions w h \<Rightarrow> True)"

definition js_or :: "jsval \<Rightarrow> jsval \<Rightarrow> jsval" where
  "js_or a b = (if truthy a then a else b)"

definition field :: "(string \<times> jsval) list \<Rightarrow> string \<Rightarrow> jsval" where
  "field data k = (case map_of data k of None \<Rightarrow> Undefined | Some v \<Rightarrow> v)"

record GenerationResult =
  success :: jsval
  preview :: jsval
  template :: jsval
  templateSvg :: jsval
  colorKey :: jsval
  dimensions :: jsval
  regionCount :: jsval
  colorsUsed :: jsval

text \<open>
  What \<open>axios.post\<close> can do: resolve with the response data, reject with an Axios error
  (with the error response, if one was received, whether \<open>error.request\<close> is set,
  and the message of the error), or throw something else. \<open>detail\<close> is \<open>response.data?.detail\<close>.
\<close>

record error_response =
  status :: nat
  detail :: "string option"

datatype axios_outcome =
    Resolved "(string \<times> jsval) list"
  | AxiosError "error_response option" bool string
  | Thrown js_error

text \<open>
  The multipart form posted to \<open>/generate\<close>, and the state a call runs in.
  \<open>form_threshold\<close> is the number whose text, \<open>toString()\<close>, the field \<open>threshold\<close> carries.
\<close>

record request =
  url :: string
  form_file :: File
  form_palette :: json
  form_threshold :: int
  timeout_ms :: nat

record client_state =
  heap :: heap
  requests :: "request list"

text \<open>\<^verbatim>\<open>import.meta.env.VITE_API_URL || 'http://localhost:8000'\<close>\<close>

definition API_URL :: "string option \<Rightarrow> string" where
  "API_URL env = (case env of None \<Rightarrow> ''http://localhost:8000''
                  | Some u \<Rightarrow> if u = [] then ''http://localhost:8000'' else u)"

text \<open>The object returned on success (lines 216 to 226 of utils.ts).\<close>

definition normalize_response :: "(string \<times> jsval) list \<Rightarrow> GenerationResult" where
  "normalize_response data =
     \<lparr> success = field data ''success'',
       preview = field data ''preview'',
       template = field data ''template'',
       templateSvg = js_or (field data ''template_svg'') (field data ''templateSvg''),
       colorKey = js_or (field data ''color_key'') (field data ''colorKey''),
       dimensions = field data ''dimensions'',
       regionCount = js_or (js_or (field data ''region_count'') (field data ''regionCount'')) (Num 0),
       colorsUsed = js_or (js_or (field data ''colors_used'') (field data ''colorsUsed'')) (Num 0) \<rparr>"

text \<open>\<^verbatim>\<open>axiosError.response.data?.detail || 'Unknown error'\<close>\<close>

definition detail_or_unknown :: "string option \<Rightarrow> string" where
  "detail_or_unknown d = (case d of None \<Rightarrow> ''Unknown error''
                          | Some t \<Rightarrow> if t = [] then ''Unknown error'' else t)"

text \<open>
  The \<open>catch\<close> block: the \<open>switch\<close> on the status when a response was received, the
  connectivity message when only the request exists, and otherwise the error rethrown
  as it is (an Axios error with neither, or a foreign error). The block is entered only
  when the call did not resolve; the last case is never used.
\<close>

definition map_failure :: "axios_outcome \<Rightarrow> js_error" where
  "map_failure out =
     (case out of
        AxiosError (Some resp) req msg \<Rightarrow>
          (let st = status resp; d = detail_or_unknown (detail resp) in
           if st = 400 then Error (''Invalid request: '' @ d)
           else if st = 413 then Error ''Image file is too large. Maximum size is 10MB.''
           else if st = 415 then Error ''Unsupported file type. Use PNG, JPEG, or WEBP.''
           else if st = 500 then Error (''Server error: '' @ d)
           else Error (''Request failed ('' @ toString10 st @ ''): '' @ d))
      | AxiosError None req msg \<Rightarrow>
          (if req then Error ''Could not connect to server. Please check your internet connection.''
           else Error msg)
      | Thrown e \<Rightarrow> e
      | Resolved data \<Rightarrow> Error [])"

text \<open>\<open>palette.length\<close>\<close>

definition array_length :: "heap \<Rightarrow> addr \<Rightarrow> nat option" where
  "array_length h p = (case lookup h p of Some (ArrayObj cs) \<Rightarrow> Some (length cs) | _ \<Rightarrow> None)"

definition TypeError :: js_error where
  "TypeError = Error ''TypeError''"

text \<open>
  \<open>generatePaintByNumber\<close> of utils.ts (the complexity-slider flow). \<open>env\<close> is the
  configured API address, \<open>post\<close> the reaction of the network to the request.
\<close>

definition generatePaintByNumber ::
  "string option \<Rightarrow> (request \<Rightarrow> axios_outcome) \<Rightarrow> File option \<Rightarrow> addr \<Rightarrow> int \<Rightarrow> client_state
     \<Rightarrow> (js_error + GenerationResult) \<times> client_state" where
  "generatePaintByNumber env post file palette complexity s =
     (case file of
        None \<Rightarrow> (Inl (Error ''No image file provided''), s)
      | Some f \<Rightarrow>
     (case array_length (heap s) palette of
        None \<Rightarrow> (Inl TypeError, s)
      | Some n \<Rightarrow>
     if n < 2 then (Inl (Error ''Palette must have at least 2 colors''), s)
     else if complexity < 1 \<or> complexity > 100
       then (Inl (Error ''Complexity must be between 1 and 100''), s)
     else
     (case formatPaletteForAPI (heap s) palette of
        None \<Rightarrow> (Inl TypeError, s)
      | Some (j, h1) \<Rightarrow>
          (let req = \<lparr> url = API_URL env @ ''/generate'', form_file = f, form_palette = j,
                       form_threshold = complexity, timeout_ms = 120000 \<rparr>;
               s1 = s\<lparr> heap := h1, requests := requests s @ [req] \<rparr>
           in case post req of
                Resolved data \<Rightarrow> (Inr (normalize_response data), s1)
              | out \<Rightarrow> (Inl (map_failure out), s1)))))"

text \<open>
  A store for the worked examples: at address 0 a palette of two colours, at address 5
  a palette of one.
\<close>

definition example_heap :: heap where
  "example_heap =
     [ArrayObj [1, 3], ColorObj ''1'' 2 None, RgbObj 255 0 0,
      ColorObj ''2'' 4 (Some ''blue''), RgbObj 0 0 255, ArrayObj [1]]"

definition example_file :: File where
  "example_file = \<lparr>file_name = ''photo.png'', file_type = ''image/png''\<rparr>"

definition example_state :: client_state where
  "example_state = \<lparr>heap = example_heap, requests = []\<rparr>"

section \<open>The image normalizer: \<open>compressImage\<close>\<close>

text \<open>
  The repository holds two utility modules that export the same names. The module that
  calls itself utils.ts v2.0 keeps the plain names here; the functions of the second
  module (the one whose \<open>generatePaintByNumber\<close> reports progress) carry the suffix
  \<open>_v1\<close>.

  A JavaScript number is a double. Its value is a rational, and every division and
  multiplication below is followed by \<open>fl\<close>, the rounding of the exact result to the
  nearest double (53 significant bits, ties to the even significand). The operands met
  here are whole numbers of pixels below \<open>2^53\<close>, which doubles hold exactly, and their
  quotients and products, which stay far from overflow and underflow.
\<close>

definition ilog2 :: "rat \<Rightarrow> int" where
  "ilog2 x =
     (if 1 \<le> x then int (floorlog 2 (nat \<lfloor>x\<rfloor>)) - 1
      else - int (floorlog 2 (nat (\<lceil>1 / x\<rceil> - 1))))"

definition round_half_even :: "rat \<Rightarrow> int" where
  "round_half_even y =
     (let f = \<lfloor>y\<rfloor>; d = y - of_int f in
      if d < 1 / 2 then f else if 1 / 2 < d then f + 1 else if even f then f else f + 1)"

definition fl :: "rat \<Rightarrow> rat" where
  "fl x =
     (if x = 0 then 0
      else let u = 2 powi (ilog2 \<bar>x\<bar> - 52) in of_int (round_half_even (x / u)) * u)"

text \<open>\<open>Math.round\<close> rounds a double to the nearest integer, halves upwards.\<close>

definition Math_round :: "rat \<Rightarrow> int" where
  "Math_round x = \<lfloor>x + 1 / 2\<rfloor>"

text \<open>
  The new dimensions in \<open>compressImage\<close> of utils.ts (lines 34 to 40), for a decoded
  image of positive width and height and bounds given in whole pixels.
\<close>

definition compressImage_dimensions :: "nat \<Rightarrow> nat \<Rightarrow> nat \<Rightarrow> nat \<Rightarrow> int \<times> int" where
  "compressImage_dimensions width height maxWidth maxHeight =
     (if width > maxWidth \<or> height > maxHeight then
        (let ratio = min (fl (of_nat maxWidth / of_nat width))
                         (fl (of_nat maxHeight / of_nat height))
         in (Math_round (fl (of_nat width * ratio)), Math_round (fl (of_nat height * ratio))))
      else (int width, int height))"

text \<open>
  The scale factor in the wording of the specification, \<open>min(1, maxWidth/w, maxHeight/h)\<close>,
  as an exact number.
\<close>

definition scale_factor :: "nat \<Rightarrow> nat \<Rightarrow> nat \<Rightarrow> nat \<Rightarrow> rat" where
  "scale_factor w h maxWidth maxHeight =
     min 1 (min (of_nat maxWidth / of_nat w) (of_nat maxHeight / of_nat h))"

text \<open>
  What the browser does for one call: whether the \<open>FileReader\<close> succeeds, the natural
  size of the decoded image (\<open>None\<close> when the image fails to load), whether a 2d context
  is available, and whether \<open>toBlob\<close> yields a blob.
\<close>

record canvas_env =
  reader_ok :: bool
  image_size :: "(nat \<times> nat) option"
  context_ok :: bool
  blob_ok :: bool

record CompressionOptions =
  maxWidth :: "nat option"
  maxHeight :: "nat option"
  quality :: "rat option"

record compressed_image =
  out_name :: string
  out_type :: string
  out_width :: int
  out_height :: int
  out_quality :: rat

text \<open>\<^verbatim>\<open>file.name.replace(/\.[^.]+$/, '.jpg')\<close>: the last dot and what follows it, when something follows.\<close>

definition replace_extension :: "string \<Rightarrow> string" where
  "replace_extension name =
     (let ext = takeWhile (\<lambda>c. c \<noteq> CHR ''.'') (rev name) in
      if ext \<noteq> [] \<and> length ext < length name
      then take (length name - length ext - 1) name @ ''.jpg''
      else name)"

text \<open>\<open>compressImage\<close> of utils.ts; the result carries the size of the canvas it was drawn on.\<close>

definition compressImage ::
  "canvas_env \<Rightarrow> File \<Rightarrow> CompressionOptions \<Rightarrow> js_error + compressed_image" where
  "compressImage env file options =
     (let mw = (case maxWidth options of None \<Rightarrow> 1200 | Some v \<Rightarrow> v);
          mh = (case maxHeight options of None \<Rightarrow> 1200 | Some v \<Rightarrow> v);
          q = (case quality options of None \<Rightarrow> 17 / 20 | Some v \<Rightarrow> v)
      in if \<not> reader_ok env then Inl (Error ''Could not read file'')
         else case image_size env of
           None \<Rightarrow> Inl (Error ''Could not load image'')
         | Some (w, h) \<Rightarrow>
             (case compressImage_dimensions w h mw mh of (width, height) \<Rightarrow>
                if \<not> context_ok env then Inl (Error ''Could not get canvas context'')
                else if \<not> blob_ok env then Inl (Error ''Could not compress image'')
                else Inr \<lparr> out_name = replace_extension (file_name file),
                           out_type = ''image/jpeg'',
                           out_width = width, out_height = height, out_quality = q \<rparr>))"

text \<open>
  The second \<open>compressImage\<close> (one bound \<open>maxDimension\<close>): the values of \<open>width\<close> and
  \<open>height\<close> after the two branches, which are not rounded, and the size the canvas takes
  when they are assigned to it (a canvas dimension is an unsigned integer; the
  fractional part is dropped).
\<close>

definition compressImage_v1_dimensions :: "nat \<Rightarrow> nat \<Rightarrow> nat \<Rightarrow> rat \<times> rat" where
  "compressImage_v1_dimensions width height maxDimension =
     (if width > height \<and> width > maxDimension
        then (of_nat maxDimension, fl (fl (of_nat height / of_nat width) * of_nat maxDimension))
      else if height > maxDimension
        then (fl (fl (of_nat width / of_nat height) * of_nat maxDimension), of_nat maxDimension)
      else (of_nat width, of_nat height))"

definition canvas_size :: "rat \<Rightarrow> int" where
  "canvas_size v = \<lfloor>v\<rfloor>"

definition compressImage_v1 ::
  "canvas_env \<Rightarrow> File \<Rightarrow> nat \<Rightarrow> rat \<Rightarrow> js_error + compressed_image" where
  "compressImage_v1 env file maxDimension q =
     (if \<not> reader_ok env then Inl (Error ''Failed to read file'')
      else case image_size env of
        None \<Rightarrow> Inl (Error ''Failed to load image'')
      | Some (w, h) \<Rightarrow>
          if \<not> context_ok env then Inl (Error ''Canvas context not available'')
          else (case compressImage_v1_dimensions w h maxDimension of (width, height) \<Rightarrow>
            if blob_ok env
            then Inr \<lparr> out_name = [], out_type = ''image/jpeg'',
                       out_width = canvas_size width, out_height = canvas_size height,
                       out_quality = q \<rparr>
            else Inl (Error ''Compression failed'')))"

section \<open>The generation client with progress reporting\<close>

text \<open>
  The second \<open>generatePaintByNumber\<close> (with the \<open>onProgress\<close> callback). A call leaves a
  trace: the values passed to \<open>onProgress\<close>, the moment the request goes out, and the
  moment its response arrives.
\<close>

datatype event = Progress rat | RequestSent | ResponseReceived

record progress_state = client_state +
  trace :: "event list"

text \<open>\<open>onProgress?.(v)\<close>: nothing happens when no callback was passed.\<close>

definition report :: "bool \<Rightarrow> rat \<Rightarrow> progress_state \<Rightarrow> progress_state" where
  "report onProgress v s = (if onProgress then s\<lparr> trace := trace s @ [Progress v] \<rparr> else s)"

text \<open>
  An upload progress event carries \<open>loaded\<close> and, when the length is computable,
  \<open>total\<close>. The handler: \<^verbatim>\<open>if (progressEvent.total) onProgress?.(30 + (loaded / total) * 40)\<close>.
\<close>

definition onUploadProgress :: "bool \<Rightarrow> progress_state \<Rightarrow> nat \<times> nat option \<Rightarrow> progress_state" where
  "onUploadProgress onProgress s ev =
     (case ev of
        (loaded, Some tot) \<Rightarrow>
          if tot \<noteq> 0 then report onProgress (30 + (of_nat loaded / of_nat tot) * 40) s else s
      | (loaded, None) \<Rightarrow> s)"

text \<open>\<^verbatim>\<open>error.response?.data?.detail || 'Failed to generate paint-by-number'\<close>\<close>

definition detail_or_failed :: "error_response option \<Rightarrow> string" where
  "detail_or_failed r =
     (case r of
        None \<Rightarrow> ''Failed to generate paint-by-number''
      | Some resp \<Rightarrow>
          (case detail resp of
             None \<Rightarrow> ''Failed to generate paint-by-number''
           | Some t \<Rightarrow> if t = [] then ''Failed to generate paint-by-number'' else t))"

text \<open>
  \<open>canvas\<close> is the browser during \<open>compressImage\<close>, \<open>uploads\<close> the progress events that
  arrive while the body is sent, \<open>post\<close> the outcome of the request. The file sent is
  the compressed image under the name of the original; the palette is serialized as it
  is, with \<open>JSON.stringify(palette)\<close>; no timeout is configured (0).
\<close>

definition generatePaintByNumber_v1 ::
  "string option \<Rightarrow> canvas_env \<Rightarrow> (nat \<times> nat option) list \<Rightarrow> (request \<Rightarrow> axios_outcome)
     \<Rightarrow> File \<Rightarrow> addr \<Rightarrow> int \<Rightarrow> bool \<Rightarrow> progress_state
     \<Rightarrow> (js_error + (string \<times> jsval) list) \<times> progress_state" where
  "generatePaintByNumber_v1 env canvas uploads post imageFile palette threshold onProgress s =
     (let s1 = report onProgress 10 s in
      case compressImage_v1 canvas imageFile 1200 (4 / 5) of
        Inl e \<Rightarrow> (Inl e, s1)
      | Inr compressedImage \<Rightarrow>
          (let s2 = report onProgress 20 s1 in
           case JSON_stringify (heap s2) palette of
             None \<Rightarrow> (Inl TypeError, s2)
           | Some j \<Rightarrow>
               (let req = \<lparr> url = API_URL env @ ''/generate'',
                            form_file = \<lparr>file_name = file_name imageFile,
                                         file_type = out_type compressedImage\<rparr>,
                            form_palette = j, form_threshold = threshold,
                            timeout_ms = 0 \<rparr>;
                    s3 = report onProgress 30 s2;
                    s4 = s3\<lparr> requests := requests s3 @ [req], trace := trace s3 @ [RequestSent] \<rparr>;
                    s5 = foldl (onUploadProgress onProgress) s4 uploads
                in case post req of
                     Resolved data \<Rightarrow>
                       (Inr data, report onProgress 100 (s5\<lparr> trace := trace s5 @ [ResponseReceived] \<rparr>))
                   | AxiosError resp rq msg \<Rightarrow> (Inl (Error (detail_or_failed resp)), s5)
                   | Thrown e \<Rightarrow> (Inl e, s5))))"

text \<open>The values reported, in order, and the part of a trace before the response.\<close>

definition progress_values :: "event list \<Rightarrow> rat list" where
  "progress_values tr = concat (map (\<lambda>e. case e of Progress v \<Rightarrow> [v] | _ \<Rightarrow> []) tr)"

definition before_response :: "event list \<Rightarrow> event list" where
  "before_response tr = takeWhile (\<lambda>e. e \<noteq> ResponseReceived) tr"

text \<open>The fraction of the body transferred, for the events that report one.\<close>

definition upload_fractions :: "(nat \<times> nat option) list \<Rightarrow> rat list" where
  "upload_fractions uploads =
     concat (map (\<lambda>ev. case ev of
                         (loaded, Some tot) \<Rightarrow>
                           if tot \<noteq> 0 then [of_nat loaded / of_nat tot] else []
                       | (loaded, None) \<Rightarrow> []) uploads)"

definition example_canvas :: canvas_env where
  "example_canvas = \<lparr>reader_ok = True, image_size = Some (2000, 1000), context_ok = True,
                      blob_ok = True\<rparr>"

definition example_progress_state :: progress_state where
  "example_progress_state = \<lparr>heap = example_heap, requests = [], trace = []\<rparr>"

section \<open>The value of a palette in the store\<close>

text \<open>
  The value of a palette in a store: the \<open>id\<close>, \<open>rgb\<close> and \<open>note\<close> of each entry, in
  order. \<open>None\<close> when the address does not hold a palette.
\<close>

record PaletteColor =
  color_id :: string
  rgb :: "nat \<times> nat \<times> nat"
  color_note :: "string option"

definition read_color :: "heap \<Rightarrow> addr \<Rightarrow> PaletteColor option" where
  "read_color h a =
     (case lookup h a of
        Some (ColorObj i r n) \<Rightarrow>
          (case lookup h r of
             Some (RgbObj x y z) \<Rightarrow> Some \<lparr>color_id = i, rgb = (x, y, z), color_note = n\<rparr>
           | _ \<Rightarrow> None)
      | _ \<Rightarrow> None)"

definition read_palette :: "heap \<Rightarrow> addr \<Rightarrow> PaletteColor list option" where
  "read_palette h p =
     (case lookup h p of
        Some (ArrayObj cs) \<Rightarrow> those (map (read_color h) cs)
      | _ \<Rightarrow> None)"

text \<open>The wire form of one entry, \<open>{id, rgb, note}\<close> with the note defaulted to the empty string.\<close>

definition wire_color :: "PaletteColor \<Rightarrow> json" where
  "wire_color c =
     (case rgb c of (x, y, z) \<Rightarrow>
        JObj [(''id'', JStr (color_id c)), (''rgb'', JArr [JNum x, JNum y, JNum z]),
              (''note'', JStr (note_or_empty (color_note c)))])"

text \<open>\<open>JSON.stringify\<close> of one entry as it is: an absent note is left out.\<close>

definition json_color :: "PaletteColor \<Rightarrow> json" where
  "json_color c =
     (case rgb c of (x, y, z) \<Rightarrow>
        JObj ([(''id'', JStr (color_id c)), (''rgb'', JArr [JNum x, JNum y, JNum z])]
              @ (case color_note c of None \<Rightarrow> [] | Some t \<Rightarrow> [(''note'', JStr t)])))"

section \<open>The colour sampler: \<open>extractColorFromImage\<close>\<close>

text \<open>
  A decoded image drawn on a canvas: its size and the red, green and blue values of each
  pixel (alpha is never read). \<open>getImageData\<close> returns the pixels of a rectangle row by
  row; a pixel outside the canvas reads as transparent black, and a rectangle of width
  or height zero raises \<open>IndexSizeError\<close> (\<open>None\<close>).
\<close>

record raster =
  img_width :: nat
  img_height :: nat
  pixel :: "nat \<Rightarrow> nat \<Rightarrow> nat \<times> nat \<times> nat"

definition get_pixel :: "raster \<Rightarrow> int \<Rightarrow> int \<Rightarrow> nat \<times> nat \<times> nat" where
  "get_pixel img x y =
     (if 0 \<le> x \<and> x < int (img_width img) \<and> 0 \<le> y \<and> y < int (img_height img)
      then pixel img (nat x) (nat y) else (0, 0, 0))"

definition getImageData ::
  "raster \<Rightarrow> int \<Rightarrow> int \<Rightarrow> int \<Rightarrow> int \<Rightarrow> (nat \<times> nat \<times> nat) list option" where
  "getImageData img sx sy sw sh =
     (if sw = 0 \<or> sh = 0 then None
      else let x0 = min sx (sx + sw); y0 = min sy (sy + sh) in
        Some (concat (map (\<lambda>y. map (\<lambda>x. get_pixel img x y) [x0..x0 + \<bar>sw\<bar> - 1])
                          [y0..y0 + \<bar>sh\<bar> - 1])))"

text \<open>
  What the browser does for one call of the sampler: whether the file can be read, the
  decoded image (\<open>None\<close> when it fails to load), whether a 2d context is available.
\<close>

record decode_env =
  file_read :: bool
  decoded :: "raster option"
  context_available :: bool

text \<open>
  The averaging loop of \<open>extractColorFromImage\<close> in utils.ts:
  \<^verbatim>\<open>for (let i = 0; i < imageData.data.length; i += 4) { r += data[i]; g += data[i + 1]; b += data[i + 2]; count++; }\<close>
  The sums are whole numbers. Each mean is the quotient of a sum by the count, taken
  exactly: for sums below \<open>2^52\<close>, as those of 8-bit channels over a canvas are, the
  quotient is either a half-integer, which a double holds exactly, or further from every
  half-integer than rounding to a double can move it, so \<open>Math.round\<close> gives the same
  integer.
\<close>

definition accumulate ::
  "nat \<times> nat \<times> nat \<times> nat \<Rightarrow> nat \<times> nat \<times> nat \<Rightarrow> nat \<times> nat \<times> nat \<times> nat" where
  "accumulate acc p =
     (case acc of (r, g, b, count) \<Rightarrow> case p of (pr, pg, pb) \<Rightarrow>
        (r + pr, g + pg, b + pb, count + 1))"

definition channel_means :: "nat \<times> nat \<times> nat \<times> nat \<Rightarrow> int \<times> int \<times> int" where
  "channel_means acc =
     (case acc of (r, g, b, count) \<Rightarrow>
        (Math_round (of_nat r / of_nat count),
         Math_round (of_nat g / of_nat count),
         Math_round (of_nat b / of_nat count)))"

text \<open>
  \<open>extractColorFromImage\<close> of utils.ts. The result is \<open>None\<close> when the promise never
  settles, which is what an exception inside the \<open>onload\<close> handler leads to.
\<close>

definition extractColorFromImage ::
  "decode_env \<Rightarrow> int option \<Rightarrow> int option \<Rightarrow> nat option
     \<Rightarrow> (js_error + int \<times> int \<times> int) option" where
  "extractColorFromImage env x y sample_size =
     (let sampleSize = (case sample_size of None \<Rightarrow> 10 | Some v \<Rightarrow> v) in
      if \<not> file_read env then Some (Inl (Error ''Could not read file''))
      else case decoded env of
        None \<Rightarrow> Some (Inl (Error ''Could not load image''))
      | Some img \<Rightarrow>
          if \<not> context_available env then Some (Inl (Error ''Could not get canvas context''))
          else
            (let centerX = (case x of None \<Rightarrow> int (img_width img div 2) | Some v \<Rightarrow> v);
                 centerY = (case y of None \<Rightarrow> int (img_height img div 2) | Some v \<Rightarrow> v);
                 halfSample = int (sampleSize div 2);
                 startX = max 0 (centerX - halfSample);
                 startY = max 0 (centerY - halfSample);
                 endX = min (int (img_width img)) (centerX + halfSample);
                 endY = min (int (img_height img)) (centerY + halfSample)
             in case getImageData img startX startY (endX - startX) (endY - startY) of
                  None \<Rightarrow> None
                | Some data \<Rightarrow> Some (Inr (channel_means (foldl accumulate (0, 0, 0, 0) data)))))"

text \<open>
  The second \<open>extractColorFromImage\<close>: two nested loops over \<open>dy\<close> and \<open>dx\<close> from
  \<open>-halfSize\<close> to \<open>halfSize\<close> inclusive, each reading the one pixel
  \<^verbatim>\<open>getImageData(max(0, min(sampleX + dx, width - 1)), max(0, min(sampleY + dy, height - 1)), 1, 1)\<close>.
\<close>

definition sample_points :: "raster \<Rightarrow> int \<Rightarrow> int \<Rightarrow> int \<Rightarrow> (int \<times> int) list" where
  "sample_points img sampleX sampleY halfSize =
     concat (map (\<lambda>dy. map (\<lambda>dx.
        (max 0 (min (sampleX + dx) (int (img_width img) - 1)),
         max 0 (min (sampleY + dy) (int (img_height img) - 1))))
        [- halfSize..halfSize]) [- halfSize..halfSize])"

definition extractColorFromImage_v1 ::
  "decode_env \<Rightarrow> int option \<Rightarrow> int option \<Rightarrow> (js_error + int \<times> int \<times> int) option" where
  "extractColorFromImage_v1 env x y =
     (if \<not> file_read env then Some (Inl (Error ''Failed to read file''))
      else case decoded env of
        None \<Rightarrow> Some (Inl (Error ''Failed to load image''))
      | Some img \<Rightarrow>
          if \<not> context_available env then Some (Inl (Error ''Canvas context not available''))
          else
            (let sampleX = (case x of None \<Rightarrow> int (img_width img div 2) | Some v \<Rightarrow> v);
                 sampleY = (case y of None \<Rightarrow> int (img_height img div 2) | Some v \<Rightarrow> v);
                 sampleSize = 10;
                 halfSize = sampleSize div 2;
                 data = map (\<lambda>(px, py). get_pixel img px py)
                          (sample_points img sampleX sampleY halfSize)
             in Some (Inr (channel_means (foldl accumulate (0, 0, 0, 0) data)))))"

text \<open>An 11 by 11 image, black but for its four corners, which are pure red.\<close>

definition corner_image :: raster where
  "corner_image =
     \<lparr>img_width = 11, img_height = 11,
      pixel = (\<lambda>x y. if (x = 0 \<or> x = 10) \<and> (y = 0 \<or> y = 10) then (255, 0, 0) else (0, 0, 0))\<rparr>"

definition corner_env :: decode_env where
  "corner_env = \<lparr>file_read = True, decoded = Some corner_image, context_available = True\<rparr>"

text \<open>
  The wording of the specification: the square of side 10 around the sample point, cut
  to the bounds of the image, and the arithmetic mean of a channel over it.
\<close>

definition sample_window :: "raster \<Rightarrow> int \<Rightarrow> int \<Rightarrow> (int \<times> int) set" where
  "sample_window img cx cy =
     {(px, py). cx - 5 \<le> px \<and> px < cx + 5 \<and> cy - 5 \<le> py \<and> py < cy + 5 \<and>
                0 \<le> px \<and> px < int (img_width img) \<and> 0 \<le> py \<and> py < int (img_height img)}"

definition window_mean :: "raster \<Rightarrow> (nat \<times> nat \<times> nat \<Rightarrow> nat) \<Rightarrow> (int \<times> int) set \<Rightarrow> rat" where
  "window_mean img channel W =
     of_nat (\<Sum>(px, py) \<in> W. channel (pixel img (nat px) (nat py))) / of_nat (card W)"

definition red :: "nat \<times> nat \<times> nat \<Rightarrow> nat" where
  "red p = fst p"

definition green :: "nat \<times> nat \<times> nat \<Rightarrow> nat" where
  "green p = fst (snd p)"

definition blue :: "nat \<times> nat \<times> nat \<Rightarrow> nat" where
  "blue p = snd (snd p)"

section \<open>The palette handlers of the PaintLab component\<close>

text \<open>
  In the component the palette is a value held by the parent: every handler builds a new
  array and hands it to \<open>onPaletteChange\<close>. Each function below returns that new palette.
  \<open>sampled\<close> is what taking the photo and sampling its colour came to; on an error the
  handler shows an alert and the palette stays as it is.
\<close>

definition addManualColor :: "PaletteColor list \<Rightarrow> PaletteColor list" where
  "addManualColor palette =
     palette @ [\<lparr>color_id = toString10 (length palette + 1), rgb = (128, 128, 128),
                 color_note = Some []\<rparr>]"

definition scanColor :: "js_error + nat \<times> nat \<times> nat \<Rightarrow> PaletteColor list \<Rightarrow> PaletteColor list" where
  "scanColor sampled palette =
     (case sampled of
        Inl e \<Rightarrow> palette
      | Inr sampled_rgb \<Rightarrow>
          palette @ [\<lparr>color_id = toString10 (length palette + 1), rgb = sampled_rgb,
                      color_note = Some []\<rparr>])"

definition removeColor :: "string \<Rightarrow> PaletteColor list \<Rightarrow> PaletteColor list" where
  "removeColor ident palette = filter (\<lambda>c. color_id c \<noteq> ident) palette"

section \<open>Proofs: identifier allocation\<close>


lemma digit_val_digit_char: "d < 10 \<Longrightarrow> digit_val (digit_char d) = d"
proof -
  assume "d < 10"
  then have "d \<in> {0, 1, 2, 3, 4, 5, 6, 7, 8, 9}" by auto
  then show ?thesis
    by (auto simp: digit_val_def digit_char_def digit_chars_def)
qed

lemma read10_snoc: "read10 (s @ [c]) = 10 * read10 s + digit_val c"
  by (simp add: read10_def)

lemma read10_toString10: "read10 (toString10 n) = n"
proof (induction n rule: toString10.induct)
  case (1 n)
  show ?case
  proof (cases "n < 10")
    case True
    then show ?thesis
      by (subst toString10.simps) (simp add: read10_def digit_val_digit_char)
  next
    case False
    then have "read10 (toString10 (n div 10)) = n div 10" using 1 by simp
    then show ?thesis using False
      by (subst toString10.simps) (simp add: read10_snoc digit_val_digit_char)
  qed
qed

lemma toString10_inj: "toString10 m = toString10 n \<Longrightarrow> m = n"
  by (metis read10_toString10)

lemma loop_numeric_Some:
  "loop_numeric ids i = Some s \<Longrightarrow>
     \<exists>n. i \<le> n \<and> n \<le> 99 \<and> s = toString10 n \<and> s \<notin> set ids \<and>
         (\<forall>j. i \<le> j \<and> j < n \<longrightarrow> toString10 j \<in> set ids)"
proof (induction ids i rule: loop_numeric.induct)
  case (1 ids i)
  show ?case
  proof (cases "i \<le> 99")
    case False
    with "1.prems" show ?thesis by (simp add: loop_numeric.simps)
  next
    case le: True
    show ?thesis
    proof (cases "toString10 i \<in> set ids")
      case False
      with le "1.prems" have "s = toString10 i"
        by (simp add: loop_numeric.simps array_includes_def)
      with le False show ?thesis by auto
    next
      case True
      with le "1.prems" have "loop_numeric ids (i + 1) = Some s"
        by (simp add: loop_numeric.simps array_includes_def)
      with "1.IH" le True obtain n where n: "i + 1 \<le> n" "n \<le> 99" "s = toString10 n" "s \<notin> set ids"
        "\<forall>j. i + 1 \<le> j \<and> j < n \<longrightarrow> toString10 j \<in> set ids"
        by (auto simp: array_includes_def)
      have "\<forall>j. i \<le> j \<and> j < n \<longrightarrow> toString10 j \<in> set ids"
      proof (intro allI impI)
        fix j assume "i \<le> j \<and> j < n"
        then have "j = i \<or> (i + 1 \<le> j \<and> j < n)" by auto
        with True n(5) show "toString10 j \<in> set ids" by auto
      qed
      with n show ?thesis by (intro exI[of _ n]) auto
    qed
  qed
qed

lemma loop_numeric_None:
  "loop_numeric ids i = None \<Longrightarrow> i \<le> j \<Longrightarrow> j \<le> 99 \<Longrightarrow> toString10 j \<in> set ids"
proof (induction ids i rule: loop_numeric.induct)
  case (1 ids i)
  from "1.prems" have le: "i \<le> 99" by simp
  with "1.prems"(1) have occ: "toString10 i \<in> set ids"
    by (auto simp: loop_numeric.simps[of ids i] array_includes_def Let_def split: if_splits)
  with le "1.prems"(1) have rest: "loop_numeric ids (i + 1) = None"
    by (auto simp: loop_numeric.simps[of ids i] array_includes_def Let_def split: if_splits)
  show ?case
  proof (cases "j = i")
    case True with occ show ?thesis by simp
  next
    case False
    with "1.prems" have "i + 1 \<le> j" by simp
    with "1.IH"[OF le] occ rest "1.prems" show ?thesis by (simp add: array_includes_def)
  qed
qed

lemma loop_numeric_all_taken:
  "(\<forall>j. i \<le> j \<and> j \<le> 99 \<longrightarrow> toString10 j \<in> set ids) \<Longrightarrow> loop_numeric ids i = None"
proof (cases "loop_numeric ids i")
  case None then show ?thesis by simp
next
  case (Some s)
  assume all: "\<forall>j. i \<le> j \<and> j \<le> 99 \<longrightarrow> toString10 j \<in> set ids"
  from loop_numeric_Some[OF Some] all show ?thesis by auto
qed

lemma loop_letters_Some:
  "loop_letters ids ls = Some s \<Longrightarrow>
     \<exists>k < length ls. s = [ls ! k] \<and> s \<notin> set ids \<and> (\<forall>j < k. [ls ! j] \<in> set ids)"
proof (induction ls)
  case Nil then show ?case by simp
next
  case (Cons l ls)
  show ?case
  proof (cases "[l] \<in> set ids")
    case False
    with Cons.prems have "s = [l]" by (simp add: array_includes_def)
    with False show ?thesis by (intro exI[of _ 0]) simp
  next
    case True
    with Cons.prems have "loop_letters ids ls = Some s" by (simp add: array_includes_def)
    with Cons.IH obtain k where k: "k < length ls" "s = [ls ! k]" "s \<notin> set ids" "\<forall>j < k. [ls ! j] \<in> set ids"
      by auto
    have "\<forall>j < Suc k. [(l # ls) ! j] \<in> set ids"
      using True k(4) by (auto simp: less_Suc_eq_0_disj)
    with k show ?thesis by (intro exI[of _ "Suc k"]) auto
  qed
qed

lemma loop_letters_None:
  "loop_letters ids ls = None \<longleftrightarrow> (\<forall>k < length ls. [ls ! k] \<in> set ids)"
  by (induction ls) (auto simp: array_includes_def less_Suc_eq_0_disj)


lemma length_letters: "length letters = 26"
  by (simp add: letters_def)

lemma gen_numeric:
  assumes "1 \<le> i" "i \<le> 99" "toString10 i \<notin> set ids"
    and "\<forall>j. 1 \<le> j \<and> j < i \<longrightarrow> toString10 j \<in> set ids"
  shows "generateColorId ids rnd = toString10 i"
proof (cases "loop_numeric ids 1")
  case None
  from loop_numeric_None[OF None assms(1,2)] assms(3) show ?thesis by simp
next
  case (Some s)
  from loop_numeric_Some[OF Some] obtain n where n: "1 \<le> n" "n \<le> 99" "s = toString10 n"
    "s \<notin> set ids" "\<forall>j. 1 \<le> j \<and> j < n \<longrightarrow> toString10 j \<in> set ids" by auto
  have "\<not> n < i" using assms(4) n by auto
  moreover have "\<not> i < n" using assms n(5) by auto
  ultimately have "n = i" by simp
  with Some n show ?thesis by (simp add: generateColorId_def)
qed

lemma gen_letter:
  assumes "\<forall>j. 1 \<le> j \<and> j \<le> 99 \<longrightarrow> toString10 j \<in> set ids"
    and "k < 26" "[letters ! k] \<notin> set ids" "\<forall>j < k. [letters ! j] \<in> set ids"
  shows "generateColorId ids rnd = [letters ! k]"
proof -
  have num: "loop_numeric ids 1 = None" using assms(1) by (intro loop_numeric_all_taken) auto
  show ?thesis
  proof (cases "loop_letters ids letters")
    case None
    with assms(2,3) show ?thesis by (auto simp: loop_letters_None length_letters)
  next
    case (Some s)
    from loop_letters_Some[OF Some] obtain m where m: "m < 26" "s = [letters ! m]"
      "s \<notin> set ids" "\<forall>j < m. [letters ! j] \<in> set ids" by (auto simp: length_letters)
    have "\<not> m < k" using assms(4) m by auto
    moreover have "\<not> k < m" using assms(3) m(4) by auto
    ultimately have "m = k" by simp
    with Some m num show ?thesis by (simp add: generateColorId_def)
  qed
qed

lemma gen_fresh_or_all_taken:
  "generateColorId ids rnd \<notin> set ids \<and> generateColorId ids rnd = generateColorId ids rnd'
   \<or> ((\<forall>j. 1 \<le> j \<and> j \<le> 99 \<longrightarrow> toString10 j \<in> set ids) \<and>
       (\<forall>k < 26. [letters ! k] \<in> set ids) \<and>
       generateColorId ids rnd = toUpperCase (substring 2 5 rnd))"
proof (cases "loop_numeric ids 1")
  case (Some s)
  from loop_numeric_Some[OF Some] Some show ?thesis by (auto simp: generateColorId_def)
next
  case None
  note num = this
  show ?thesis
  proof (cases "loop_letters ids letters")
    case (Some s)
    from loop_letters_Some[OF Some] Some num show ?thesis by (auto simp: generateColorId_def)
  next
    case None
    then have "\<forall>k < 26. [letters ! k] \<in> set ids" by (simp add: loop_letters_None length_letters)
    moreover have "\<forall>j. 1 \<le> j \<and> j \<le> 99 \<longrightarrow> toString10 j \<in> set ids"
      using loop_numeric_None[OF num] by blast
    ultimately show ?thesis using num None by (simp add: generateColorId_def)
  qed
qed

lemma gen_all_taken:
  assumes "\<forall>j. 1 \<le> j \<and> j \<le> 99 \<longrightarrow> toString10 j \<in> set ids"
    and "\<forall>k < 26. [letters ! k] \<in> set ids"
  shows "generateColorId ids rnd = toUpperCase (substring 2 5 rnd)"
proof -
  have "loop_numeric ids 1 = None" using assms(1) by (intro loop_numeric_all_taken) auto
  moreover have "loop_letters ids letters = None"
    using assms(2) by (simp add: loop_letters_None length_letters)
  ultimately show ?thesis by (simp add: generateColorId_def)
qed

lemma gen_50: "set ids = toString10 ` {1..50} \<Longrightarrow> generateColorId ids rnd = ''51''"
proof -
  assume s: "set ids = toString10 ` {1..50}"
  have "toString10 51 \<notin> set ids" using s by (auto dest: toString10_inj)
  moreover have "\<forall>j. 1 \<le> j \<and> j < 51 \<longrightarrow> toString10 j \<in> set ids" using s by auto
  ultimately have "generateColorId ids rnd = toString10 51" by (intro gen_numeric) auto
  also have "toString10 51 = ''51''" by (simp add: toString10.simps digit_char_def digit_chars_def)
  finally show ?thesis .
qed

lemma letters_digit_val: "\<forall>c \<in> set letters. 10 \<le> digit_val c"
  by (simp add: letters_def digit_val_def)

lemma toString10_length: "10 \<le> j \<Longrightarrow> 2 \<le> length (toString10 j)"
  by (subst toString10.simps) (simp, subst toString10.simps, simp)

lemma letter_not_numeral: "k < 26 \<Longrightarrow> [letters ! k] \<noteq> toString10 j"
proof
  assume k: "k < 26" and eq: "[letters ! k] = toString10 j"
  have "read10 [letters ! k] = j" using eq by (simp add: read10_toString10)
  then have jv: "j = digit_val (letters ! k)" by (simp add: read10_def)
  from k have "letters ! k \<in> set letters" by (simp add: length_letters)
  with letters_digit_val jv have "10 \<le> j" by simp
  then have "2 \<le> length (toString10 j)" by (rule toString10_length)
  with eq[symmetric] show False by simp
qed

lemma gen_99: "set ids = toString10 ` {1..99} \<Longrightarrow> generateColorId ids rnd = ''A''"
proof -
  assume s: "set ids = toString10 ` {1..99}"
  have "[letters ! 0] \<notin> set ids" using s letter_not_numeral[of 0] by auto
  moreover have "\<forall>j. 1 \<le> j \<and> j \<le> 99 \<longrightarrow> toString10 j \<in> set ids" using s by auto
  ultimately have "generateColorId ids rnd = [letters ! 0]" by (intro gen_letter) auto
  also have "[letters ! 0] = ''A''" by (simp add: letters_def)
  finally show ?thesis .
qed

lemma letters_take_25: "take 25 letters = ''ABCDEFGHIJKLMNOPQRSTUVWXY''"
  by (simp add: letters_def)

lemma gen_Z:
  assumes "set ids = toString10 ` {1..99} \<union> (\<lambda>c. [c]) ` set ''ABCDEFGHIJKLMNOPQRSTUVWXY''"
  shows "generateColorId ids rnd = ''Z''"
proof -
  have z: "[letters ! 25] = ''Z''" by (simp add: letters_def)
  have "''Z'' \<notin> toString10 ` {1..99}" using letter_not_numeral[of 25] z by auto
  moreover have "''Z'' \<notin> (\<lambda>c. [c]) ` set ''ABCDEFGHIJKLMNOPQRSTUVWXY''" by auto
  ultimately have free: "[letters ! 25] \<notin> set ids" using assms z by simp
  have before: "\<forall>j < 25. [letters ! j] \<in> set ids"
  proof (intro allI impI)
    fix j :: nat assume j: "j < 25"
    then have "letters ! j = take 25 letters ! j" by simp
    moreover have "take 25 letters ! j \<in> set (take 25 letters)"
      using j by (intro nth_mem) (simp add: length_letters)
    ultimately have "letters ! j \<in> set ''ABCDEFGHIJKLMNOPQRSTUVWXY''"
      by (simp only: letters_take_25)
    then show "[letters ! j] \<in> set ids" using assms by blast
  qed
  have "\<forall>j. 1 \<le> j \<and> j \<le> 99 \<longrightarrow> toString10 j \<in> set ids" using assms by auto
  then have "generateColorId ids rnd = [letters ! 25]"
    using free before by (intro gen_letter) auto
  with z show ?thesis by simp
qed

lemma numerals_1_99:
  "map toString10 [1..<100] =
     map (\<lambda>c. [c]) ''123456789'' @
       [''10'', ''11'', ''12'', ''13'', ''14'', ''15'', ''16'', ''17'', ''18'', ''19'',
        ''20'', ''21'', ''22'', ''23'', ''24'', ''25'', ''26'', ''27'', ''28'', ''29'',
        ''30'', ''31'', ''32'', ''33'', ''34'', ''35'', ''36'', ''37'', ''38'', ''39'',
        ''40'', ''41'', ''42'', ''43'', ''44'', ''45'', ''46'', ''47'', ''48'', ''49'',
        ''50'', ''51'', ''52'', ''53'', ''54'', ''55'', ''56'', ''57'', ''58'', ''59'',
        ''60'', ''61'', ''62'', ''63'', ''64'', ''65'', ''66'', ''67'', ''68'', ''69'',
        ''70'', ''71'', ''72'', ''73'', ''74'', ''75'', ''76'', ''77'', ''78'', ''79'',
        ''80'', ''81'', ''82'', ''83'', ''84'', ''85'', ''86'', ''87'', ''88'', ''89'',
        ''90'', ''91'', ''92'', ''93'', ''94'', ''95'', ''96'', ''97'', ''98'', ''99'']"
  by code_simp

lemma toUpperCase_base36:
  "toUpperCase ''0123456789abcdefghijklmnopqrstuvwxyz'' = ''0123456789ABCDEFGHIJKLMNOPQRSTUVWXYZ''"
  by (simp add: toUpperCase_def toUpperCase_char_def)

lemma toUpperCase_char_base36:
  "\<forall>c \<in> set ''0123456789abcdefghijklmnopqrstuvwxyz''.
     toUpperCase_char c \<in> set ''0123456789ABCDEFGHIJKLMNOPQRSTUVWXYZ''"
  by (simp add: toUpperCase_char_def)

lemma set_map_subset: "set xs \<subseteq> A \<Longrightarrow> \<forall>c \<in> A. f c \<in> B \<Longrightarrow> set (map f xs) \<subseteq> B"
  by auto

lemma random_token:
  assumes "rnd = ''0.'' @ ds" "set ds \<subseteq> set ''0123456789abcdefghijklmnopqrstuvwxyz''"
  shows "toUpperCase (substring 2 5 rnd) = toUpperCase (take 3 ds)
     \<and> set (toUpperCase (substring 2 5 rnd)) \<subseteq> set ''0123456789ABCDEFGHIJKLMNOPQRSTUVWXYZ''"
proof -
  have s: "substring 2 5 rnd = take 3 ds" by (simp add: substring_def assms(1))
  have "set (take 3 ds) \<subseteq> set ''0123456789abcdefghijklmnopqrstuvwxyz''"
    using assms(2) set_take_subset[of 3 ds] by blast
  then have "set (toUpperCase (take 3 ds)) \<subseteq> set ''0123456789ABCDEFGHIJKLMNOPQRSTUVWXYZ''"
    unfolding toUpperCase_def by (rule set_map_subset) (rule toUpperCase_char_base36)
  with s show ?thesis by simp
qed

lemma random_token_length: "length (toUpperCase (substring 2 5 rnd)) \<le> 3"
  by (simp add: toUpperCase_def substring_def)

text \<open>
  Claim C2. \<open>generateColorId\<close> returns the smallest numeral among \<open>"1".."99"\<close> that is not
  in the list of existing ids (the numerals are spelled out in the second conjunct); when
  all 99 are taken, the first letter of the alphabet \<open>A..Z\<close>, in that order, that is not
  in the list; with exactly \<open>"1".."50"\<close> occupied the result is \<open>"51"\<close>, with exactly
  \<open>"1".."99"\<close> occupied it is \<open>"A"\<close>, and with those and \<open>"A".."Y"\<close> occupied it is \<open>"Z"\<close>.
  Either the result is not among the existing ids and does not depend on the random text
  (tiers one and two), or all 99 numerals and all 26 letters are occupied and the result
  is the random token: at most three characters, those after \<open>0.\<close> in the base-36 text
  of the random number, in upper case, so digits and capital letters only.
\<close>

theorem generateColorId_tiers:
  "(1 \<le> i \<and> i \<le> 99 \<and> toString10 i \<notin> set ids \<and>
      (\<forall>j. 1 \<le> j \<and> j < i \<longrightarrow> toString10 j \<in> set ids)
      \<longrightarrow> generateColorId ids rnd = toString10 i)
   \<and> map toString10 [1..<100] =
       map (\<lambda>c. [c]) ''123456789'' @
       [''10'', ''11'', ''12'', ''13'', ''14'', ''15'', ''16'', ''17'', ''18'', ''19'',
        ''20'', ''21'', ''22'', ''23'', ''24'', ''25'', ''26'', ''27'', ''28'', ''29'',
        ''30'', ''31'', ''32'', ''33'', ''34'', ''35'', ''36'', ''37'', ''38'', ''39'',
        ''40'', ''41'', ''42'', ''43'', ''44'', ''45'', ''46'', ''47'', ''48'', ''49'',
        ''50'', ''51'', ''52'', ''53'', ''54'', ''55'', ''56'', ''57'', ''58'', ''59'',
        ''60'', ''61'', ''62'', ''63'', ''64'', ''65'', ''66'', ''67'', ''68'', ''69'',
        ''70'', ''71'', ''72'', ''73'', ''74'', ''75'', ''76'', ''77'', ''78'', ''79'',
        ''80'', ''81'', ''82'', ''83'', ''84'', ''85'', ''86'', ''87'', ''88'', ''89'',
        ''90'', ''91'', ''92'', ''93'', ''94'', ''95'', ''96'', ''97'', ''98'', ''99'']
   \<and> ((\<forall>j. 1 \<le> j \<and> j \<le> 99 \<longrightarrow> toString10 j \<in> set ids) \<and>
       k < 26 \<and> [''ABCDEFGHIJKLMNOPQRSTUVWXYZ'' ! k] \<notin> set ids \<and>
       (\<forall>j < k. [''ABCDEFGHIJKLMNOPQRSTUVWXYZ'' ! j] \<in> set ids)
      \<longrightarrow> generateColorId ids rnd = [''ABCDEFGHIJKLMNOPQRSTUVWXYZ'' ! k])
   \<and> (set ids = toString10 ` {1..50} \<longrightarrow> generateColorId ids rnd = ''51'')
   \<and> (set ids = toString10 ` {1..99} \<longrightarrow> generateColorId ids rnd = ''A'')
   \<and> (set ids = toString10 ` {1..99} \<union> (\<lambda>c. [c]) ` set ''ABCDEFGHIJKLMNOPQRSTUVWXY''
       \<longrightarrow> generateColorId ids rnd = ''Z'')
   \<and> (generateColorId ids rnd \<notin> set ids \<and> generateColorId ids rnd = generateColorId ids rnd'
       \<or> ((\<forall>j. 1 \<le> j \<and> j \<le> 99 \<longrightarrow> toString10 j \<in> set ids) \<and>
           (\<forall>k < 26. [''ABCDEFGHIJKLMNOPQRSTUVWXYZ'' ! k] \<in> set ids) \<and>
           generateColorId ids rnd = toUpperCase (substring 2 5 rnd) \<and>
           length (generateColorId ids rnd) \<le> 3))
   \<and> ((\<forall>j. 1 \<le> j \<and> j \<le> 99 \<longrightarrow> toString10 j \<in> set ids) \<and>
       (\<forall>k < 26. [''ABCDEFGHIJKLMNOPQRSTUVWXYZ'' ! k] \<in> set ids) \<and>
       rnd = ''0.'' @ ds \<and> set ds \<subseteq> set ''0123456789abcdefghijklmnopqrstuvwxyz''
       \<longrightarrow> generateColorId ids rnd = toUpperCase (take 3 ds) \<and>
           set (generateColorId ids rnd) \<subseteq> set ''0123456789ABCDEFGHIJKLMNOPQRSTUVWXYZ'')
   \<and> toUpperCase ''0123456789abcdefghijklmnopqrstuvwxyz'' = ''0123456789ABCDEFGHIJKLMNOPQRSTUVWXYZ''"
proof -
  have fresh: "generateColorId ids rnd \<notin> set ids \<and> generateColorId ids rnd = generateColorId ids rnd'
       \<or> ((\<forall>j. 1 \<le> j \<and> j \<le> 99 \<longrightarrow> toString10 j \<in> set ids) \<and>
           (\<forall>k < 26. [letters ! k] \<in> set ids) \<and>
           generateColorId ids rnd = toUpperCase (substring 2 5 rnd) \<and>
           length (generateColorId ids rnd) \<le> 3)"
    using gen_fresh_or_all_taken[of ids rnd rnd'] random_token_length[of rnd] by auto
  have token: "(\<forall>j. 1 \<le> j \<and> j \<le> 99 \<longrightarrow> toString10 j \<in> set ids) \<and>
       (\<forall>k < 26. [letters ! k] \<in> set ids) \<and>
       rnd = ''0.'' @ ds \<and> set ds \<subseteq> set ''0123456789abcdefghijklmnopqrstuvwxyz''
       \<longrightarrow> generateColorId ids rnd = toUpperCase (take 3 ds) \<and>
           set (generateColorId ids rnd) \<subseteq> set ''0123456789ABCDEFGHIJKLMNOPQRSTUVWXYZ''"
  proof (intro impI)
    assume h: "(\<forall>j. 1 \<le> j \<and> j \<le> 99 \<longrightarrow> toString10 j \<in> set ids) \<and>
       (\<forall>k < 26. [letters ! k] \<in> set ids) \<and>
       rnd = ''0.'' @ ds \<and> set ds \<subseteq> set ''0123456789abcdefghijklmnopqrstuvwxyz''"
    then have g: "generateColorId ids rnd = toUpperCase (substring 2 5 rnd)"
      using gen_all_taken[of ids rnd] by blast
    from h have "toUpperCase (substring 2 5 rnd) = toUpperCase (take 3 ds)
       \<and> set (toUpperCase (substring 2 5 rnd)) \<subseteq> set ''0123456789ABCDEFGHIJKLMNOPQRSTUVWXYZ''"
      using random_token[of rnd ds] by blast
    then show "generateColorId ids rnd = toUpperCase (take 3 ds) \<and>
           set (generateColorId ids rnd) \<subseteq> set ''0123456789ABCDEFGHIJKLMNOPQRSTUVWXYZ''"
      unfolding g .
  qed
  show ?thesis
    using gen_numeric[of i ids rnd] gen_letter[of ids k rnd, unfolded letters_def]
      gen_50[of ids rnd] gen_99[of ids rnd] gen_Z[of ids rnd] numerals_1_99 toUpperCase_base36
      fresh[unfolded letters_def] token[unfolded letters_def]
    by blast
qed

theorem generateColorId_tiers_witness:
  "generateColorId (map toString10 [1..<51]) ''0.k2j5x9'' = ''51''
   \<and> generateColorId (map toString10 [1..<100]) ''0.k2j5x9'' = ''A''
   \<and> generateColorId [''1'', ''2'', ''4''] ''0.k2j5x9'' = ''3''
   \<and> generateColorId (map toString10 [1..<100] @ map (\<lambda>c. [c]) ''ABCDEFGHIJKLMNOPQRSTUVWXYZ'') ''0.k2j5x9''
       = ''K2J''"
proof -
  have a: "set (map toString10 [1..<51]) = toString10 ` {1..50}"
    by (simp add: atLeastLessThanSuc_atLeastAtMost[symmetric] del: upt_Suc)
  have b: "set (map toString10 [1..<100]) = toString10 ` {1..99}"
    by (simp add: atLeastLessThanSuc_atLeastAtMost[symmetric] del: upt_Suc)
  have t: "toString10 1 = ''1''" "toString10 2 = ''2''" "toString10 3 = ''3''"
    by (simp_all add: toString10.simps digit_char_def digit_chars_def)
  have c: "(1::nat) \<le> 3 \<and> (3::nat) \<le> 99 \<and> toString10 3 \<notin> set [''1'', ''2'', ''4''] \<and>
      (\<forall>j. 1 \<le> j \<and> j < 3 \<longrightarrow> toString10 j \<in> set [''1'', ''2'', ''4''])"
  proof -
    have "\<forall>j::nat. 1 \<le> j \<and> j < 3 \<longrightarrow> j = 1 \<or> j = 2" by auto
    with t show ?thesis by auto
  qed
  let ?all = "map toString10 [1..<100] @ map (\<lambda>c. [c]) ''ABCDEFGHIJKLMNOPQRSTUVWXYZ''"
  have n: "\<forall>j. 1 \<le> j \<and> j \<le> 99 \<longrightarrow> toString10 j \<in> set ?all"
    by (auto simp del: upt_Suc)
  have l: "\<forall>k < 26. [''ABCDEFGHIJKLMNOPQRSTUVWXYZ'' ! k] \<in> set ?all"
  proof (intro allI impI)
    fix k :: nat assume "k < 26"
    then have "''ABCDEFGHIJKLMNOPQRSTUVWXYZ'' ! k \<in> set ''ABCDEFGHIJKLMNOPQRSTUVWXYZ''"
      by (intro nth_mem) simp
    then show "[''ABCDEFGHIJKLMNOPQRSTUVWXYZ'' ! k] \<in> set ?all"
      by (simp only: set_append set_map) blast
  qed
  have d: "''0.k2j5x9'' = ''0.'' @ ''k2j5x9''
      \<and> set ''k2j5x9'' \<subseteq> set ''0123456789abcdefghijklmnopqrstuvwxyz''" by simp
  have u: "toUpperCase (take 3 ''k2j5x9'') = ''K2J''"
    by (simp add: toUpperCase_def toUpperCase_char_def)
  note 1 = generateColorId_tiers[where ids = "map toString10 [1..<51]" and rnd = "''0.k2j5x9''",
      THEN conjunct2, THEN conjunct2, THEN conjunct2, THEN conjunct1, THEN mp, OF a]
  note 2 = generateColorId_tiers[where ids = "map toString10 [1..<100]" and rnd = "''0.k2j5x9''",
      THEN conjunct2, THEN conjunct2, THEN conjunct2, THEN conjunct2, THEN conjunct1, THEN mp, OF b]
  note 3 = generateColorId_tiers[where i = 3 and ids = "[''1'', ''2'', ''4'']" and rnd = "''0.k2j5x9''",
      THEN conjunct1, THEN mp, OF c]
  have p: "(\<forall>j. 1 \<le> j \<and> j \<le> 99 \<longrightarrow> toString10 j \<in> set ?all) \<and>
       (\<forall>k < 26. [''ABCDEFGHIJKLMNOPQRSTUVWXYZ'' ! k] \<in> set ?all) \<and>
       ''0.k2j5x9'' = ''0.'' @ ''k2j5x9'' \<and>
       set ''k2j5x9'' \<subseteq> set ''0123456789abcdefghijklmnopqrstuvwxyz''"
    using n l d by blast
  note 4 = generateColorId_tiers[where ids = ?all and rnd = "''0.k2j5x9''" and ds = "''k2j5x9''",
      THEN conjunct2, THEN conjunct2, THEN conjunct2, THEN conjunct2, THEN conjunct2, THEN conjunct2, THEN conjunct2, THEN conjunct1, THEN mp, OF p, THEN conjunct1]
  from 1 2 3 4 t u show ?thesis by (simp only:)
qed

section \<open>Proofs: colour conversion\<close>

lemma hexadecimal_digit_class: "hexadecimal_digit c \<Longrightarrow> hex_class c"
  by (auto simp: hex_class_def hexadecimal_digit_def)

lemma code_range_digits:
  "(48::nat) \<le> n \<Longrightarrow> n \<le> 57 \<Longrightarrow>
   n = 48 \<or> n = 49 \<or> n = 50 \<or> n = 51 \<or> n = 52 \<or> n = 53 \<or> n = 54 \<or> n = 55 \<or> n = 56 \<or> n = 57"
proof -
  assume a: "48 \<le> n" "n \<le> 57"
  define d where "d = n - 48"
  have n: "n = 48 + d" and "d < 10" using a by (simp_all add: d_def)
  then have "d \<in> {0,1,2,3,4,5,6,7,8,9}" by (simp add: numeral_eq_Suc less_Suc_eq)
  then show ?thesis unfolding n by auto
qed

lemma code_range_upper:
  "(65::nat) \<le> n \<Longrightarrow> n \<le> 70 \<Longrightarrow> n = 65 \<or> n = 66 \<or> n = 67 \<or> n = 68 \<or> n = 69 \<or> n = 70"
proof -
  assume a: "65 \<le> n" "n \<le> 70"
  define d where "d = n - 65"
  have n: "n = 65 + d" and "d < 6" using a by (simp_all add: d_def)
  then have "d \<in> {0,1,2,3,4,5}" by (simp add: numeral_eq_Suc less_Suc_eq)
  then show ?thesis unfolding n by auto
qed

lemma code_range_lower:
  "(97::nat) \<le> n \<Longrightarrow> n \<le> 102 \<Longrightarrow> n = 97 \<or> n = 98 \<or> n = 99 \<or> n = 100 \<or> n = 101 \<or> n = 102"
proof -
  assume a: "97 \<le> n" "n \<le> 102"
  define d where "d = n - 97"
  have n: "n = 97 + d" and "d < 6" using a by (simp_all add: d_def)
  then have "d \<in> {0,1,2,3,4,5}" by (simp add: numeral_eq_Suc less_Suc_eq)
  then show ?thesis unfolding n by auto
qed

lemma hexadecimal_digit_split:
  "hexadecimal_digit c =
     (c \<in> set ''0123456789'' \<or> c \<in> set ''abcdef'' \<or> c \<in> set ''ABCDEF'')"
  unfolding hexadecimal_digit_def by auto

lemma of_char_image_mem: "(of_char c :: nat) \<in> of_char ` S \<Longrightarrow> c \<in> S"
  by auto

lemma hex_class_digit: "hex_class c \<Longrightarrow> hexadecimal_digit c"
proof -
  assume h: "hex_class c"
  define n where "n = (of_char c :: nat)"
  from h consider "97 \<le> n \<and> n \<le> 102" | "65 \<le> n \<and> n \<le> 70" | "48 \<le> n \<and> n \<le> 57"
    unfolding hex_class_def n_def[symmetric] Let_def by auto
  then show ?thesis
  proof cases
    case 1
    then have "n = 97 \<or> n = 98 \<or> n = 99 \<or> n = 100 \<or> n = 101 \<or> n = 102"
      by (intro code_range_lower) simp_all
    then have "n \<in> of_char ` set ''abcdef''" by auto
    then have "c \<in> set ''abcdef''" unfolding n_def by (rule of_char_image_mem)
    then show ?thesis by (simp only: hexadecimal_digit_split simp_thms)
  next
    case 2
    then have "n = 65 \<or> n = 66 \<or> n = 67 \<or> n = 68 \<or> n = 69 \<or> n = 70"
      by (intro code_range_upper) simp_all
    then have "n \<in> of_char ` set ''ABCDEF''" by auto
    then have "c \<in> set ''ABCDEF''" unfolding n_def by (rule of_char_image_mem)
    then show ?thesis by (simp only: hexadecimal_digit_split simp_thms)
  next
    case 3
    then have "n = 48 \<or> n = 49 \<or> n = 50 \<or> n = 51 \<or> n = 52 \<or> n = 53 \<or> n = 54 \<or> n = 55 \<or> n = 56 \<or> n = 57"
      by (intro code_range_digits) simp_all
    then have "n \<in> of_char ` set ''0123456789''" by auto
    then have "c \<in> set ''0123456789''" unfolding n_def by (rule of_char_image_mem)
    then show ?thesis by (simp only: hexadecimal_digit_split simp_thms)
  qed
qed

lemma hex_class_iff: "hex_class c = hexadecimal_digit c"
  using hex_class_digit hexadecimal_digit_class by blast

lemma hash_not_hex: "\<not> hex_class (CHR ''#'')"
  by (simp add: hex_class_def)

lemma hex_regex_exec_None: "\<not> hex_color_syntax s \<Longrightarrow> hex_regex_exec s = None"
proof (rule ccontr)
  assume n: "\<not> hex_color_syntax s" and "hex_regex_exec s \<noteq> None"
  then obtain body where b: "body = (case s of c # rest \<Rightarrow> if c = CHR ''#'' then rest else s | [] \<Rightarrow> s)"
    and l: "length body = 6" and h: "list_all hex_class body"
    by (auto simp: hex_regex_exec_def Let_def split: if_splits)
  from h have hd: "\<forall>c \<in> set body. hexadecimal_digit c"
    by (simp add: list_all_iff hex_class_iff)
  from b have "s = body \<or> s = CHR ''#'' # body"
    by (auto split: list.splits if_splits)
  with l hd have "hex_color_syntax s" unfolding hex_color_syntax_def by blast
  with n show False by simp
qed

lemma hex_regex_exec_Some: "hex_color_syntax s \<Longrightarrow> hex_regex_exec s \<noteq> None"
proof -
  assume "hex_color_syntax s"
  then obtain ds where ds: "length ds = 6" "\<forall>c \<in> set ds. hexadecimal_digit c" "s = ds \<or> s = CHR ''#'' # ds"
    unfolding hex_color_syntax_def by blast
  from ds(2) have cl: "list_all hex_class ds" by (simp add: list_all_iff hex_class_iff)
  from ds(3) show ?thesis
  proof
    assume "s = CHR ''#'' # ds"
    with ds(1) cl show ?thesis by (simp add: hex_regex_exec_def)
  next
    assume e: "s = ds"
    from ds(1) obtain c rest where cr: "ds = c # rest" by (cases ds) auto
    with cl have "hex_class c" by simp
    with hash_not_hex have "c \<noteq> CHR ''#''" by auto
    with e cr ds(1) cl show ?thesis by (simp add: hex_regex_exec_def)
  qed
qed

lemma below_16: "d < 16 \<Longrightarrow> d \<in> {0,1,2,3,4,5,6,7,8,9,10,11,12,13,14,15::nat}"
  by (simp add: numeral_eq_Suc less_Suc_eq)

lemma digit_char_hex_class: "d < 16 \<Longrightarrow> hex_class (digit_char d)"
proof -
  assume "d < 16"
  then have "d \<in> {0,1,2,3,4,5,6,7,8,9,10,11,12,13,14,15}" by (rule below_16)
  then show ?thesis by (auto simp: digit_char_def digit_chars_def hex_class_def)
qed

lemma hex_digit_val_digit_char: "d < 16 \<Longrightarrow> hex_digit_val (digit_char d) = d"
proof -
  assume "d < 16"
  then have "d \<in> {0,1,2,3,4,5,6,7,8,9,10,11,12,13,14,15}" by (rule below_16)
  then show ?thesis by (auto simp: digit_char_def digit_chars_def hex_digit_val_def)
qed

lemma pad_toString16:
  "c \<le> 255 \<Longrightarrow> padStart 2 (CHR ''0'') (toString16 c) = [digit_char (c div 16), digit_char (c mod 16)]"
proof (cases "c < 16")
  case True
  then show ?thesis
    by (subst toString16.simps) (simp add: padStart_def digit_char_def digit_chars_def)
next
  case False
  assume "c \<le> 255"
  then have "c div 16 < 16" by simp
  with False show ?thesis
    by (subst toString16.simps, simp, subst toString16.simps, simp add: padStart_def)
qed

lemma rgbToHex_255:
  "r \<le> 255 \<Longrightarrow> g \<le> 255 \<Longrightarrow> b \<le> 255 \<Longrightarrow>
   rgbToHex (r, g, b) = CHR ''#'' # [digit_char (r div 16), digit_char (r mod 16),
      digit_char (g div 16), digit_char (g mod 16), digit_char (b div 16), digit_char (b mod 16)]"
  by (simp add: rgbToHex_def pad_toString16)

lemma parseInt16_pair: "parseInt16 [x, y] = 16 * hex_digit_val x + hex_digit_val y"
  by (simp add: parseInt16_def)

lemma hex_roundtrip:
  assumes "r \<le> 255" "g \<le> 255" "b \<le> 255"
  shows "hexToRgb (rgbToHex (r, g, b)) = Inr (r, g, b)"
proof -
  have d: "r div 16 < 16" "g div 16 < 16" "b div 16 < 16" "r mod 16 < 16" "g mod 16 < 16" "b mod 16 < 16"
    using assms by simp_all
  have "hex_regex_exec (rgbToHex (r, g, b)) =
      Some ([digit_char (r div 16), digit_char (r mod 16)],
            [digit_char (g div 16), digit_char (g mod 16)],
            [digit_char (b div 16), digit_char (b mod 16)])"
    using d by (simp add: rgbToHex_255 assms hex_regex_exec_def digit_char_hex_class)
  then show ?thesis
    using d by (simp add: hexToRgb_def parseInt16_pair hex_digit_val_digit_char)
qed

text \<open>
  Claim C10. For every triple of integers in \<open>[0, 255]\<close>, \<open>hexToRgb (rgbToHex rgb)\<close>
  returns the triple; \<open>hexToRgb\<close> throws the invalid-hex error for every string that is
  not an optional \<open>#\<close> followed by exactly six hexadecimal digits (and returns a triple
  for every string that is).
\<close>

theorem hex_roundtrip_and_rejection:
  "(r \<le> 255 \<and> g \<le> 255 \<and> b \<le> 255 \<longrightarrow> hexToRgb (rgbToHex (r, g, b)) = Inr (r, g, b))
   \<and> (\<not> hex_color_syntax s \<longrightarrow> hexToRgb s = Inl (Error ''Invalid hex color''))
   \<and> (hex_color_syntax s \<longrightarrow> (\<exists>v. hexToRgb s = Inr v))"
proof (intro conjI impI)
  assume "r \<le> 255 \<and> g \<le> 255 \<and> b \<le> 255"
  then show "hexToRgb (rgbToHex (r, g, b)) = Inr (r, g, b)" by (simp add: hex_roundtrip)
next
  assume "\<not> hex_color_syntax s"
  then show "hexToRgb s = Inl (Error ''Invalid hex color'')"
    by (simp add: hexToRgb_def hex_regex_exec_None)
next
  assume "hex_color_syntax s"
  then have "hex_regex_exec s \<noteq> None" by (rule hex_regex_exec_Some)
  then show "\<exists>v. hexToRgb s = Inr v" by (auto simp: hexToRgb_def)
qed

theorem hex_roundtrip_and_rejection_witness:
  "hexToRgb (rgbToHex (255, 0, 10)) = Inr (255, 0, 10)
   \<and> hexToRgb ''#ff000'' = Inl (Error ''Invalid hex color'')
   \<and> (\<exists>v. hexToRgb ''#FFaa09'' = Inr v)"
proof -
  have "hex_regex_exec ''#ff000'' = None"
    by (simp add: hex_regex_exec_def)
  with hex_regex_exec_Some[of "''#ff000''"] have n: "\<not> hex_color_syntax ''#ff000''"
    by blast
  have y: "hex_color_syntax ''#FFaa09''"
    unfolding hex_color_syntax_def
    by (intro exI[of _ "''FFaa09''"]) (simp add: hexadecimal_digit_def)
  from hex_roundtrip_and_rejection[of 255 0 10 "''#ff000''"] n
  have 1: "hexToRgb (rgbToHex (255, 0, 10)) = Inr (255, 0, 10)"
    and 2: "hexToRgb ''#ff000'' = Inl (Error ''Invalid hex color'')" by simp_all
  from hex_roundtrip_and_rejection[of 255 0 10 "''#FFaa09''"] y
  have 3: "\<exists>v. hexToRgb ''#FFaa09'' = Inr v" by simp
  from 1 2 3 show ?thesis by blast
qed

section \<open>Proofs: palettes in the store\<close>

lemma lookup_append: "a < length h \<Longrightarrow> lookup (h @ new) a = lookup h a"
  by (simp add: lookup_def nth_append)

lemma lookup_Some_less: "lookup h a = Some ob \<Longrightarrow> a < length h"
  by (simp add: lookup_def split: if_splits)

lemma read_color_append: "read_color h a = Some v \<Longrightarrow> read_color (h @ new) a = Some v"
proof -
  assume r: "read_color h a = Some v"
  then obtain i r' n where c: "lookup h a = Some (ColorObj i r' n)"
    by (auto simp: read_color_def split: option.splits obj.splits)
  with r obtain x y z where g: "lookup h r' = Some (RgbObj x y z)"
    by (auto simp: read_color_def split: option.splits obj.splits)
  from c g have "lookup (h @ new) a = Some (ColorObj i r' n)" "lookup (h @ new) r' = Some (RgbObj x y z)"
    by (simp_all add: lookup_append lookup_Some_less)
  with r c g show ?thesis by (simp add: read_color_def)
qed

lemma those_map_append:
  "those (map (read_color h) cs) = Some vs \<Longrightarrow> those (map (read_color (h @ new)) cs) = Some vs"
proof (induction cs arbitrary: vs)
  case Nil
  then show ?case by simp
next
  case (Cons c cs)
  from Cons.prems obtain v vs' where v: "read_color h c = Some v"
    and vs': "those (map (read_color h) cs) = Some vs'" and e: "vs = v # vs'"
    by (auto split: option.splits)
  from Cons.IH[OF vs'] read_color_append[OF v] e show ?case by simp
qed

lemma read_palette_append:
  "read_palette h p = Some vs \<Longrightarrow> read_palette (h @ new) p = Some vs"
proof -
  assume r: "read_palette h p = Some vs"
  then obtain cs where c: "lookup h p = Some (ArrayObj cs)"
    by (auto simp: read_palette_def split: option.splits obj.splits)
  with r have t: "those (map (read_color h) cs) = Some vs" by (simp add: read_palette_def)
  from c have "lookup (h @ new) p = Some (ArrayObj cs)"
    by (simp add: lookup_append lookup_Some_less)
  with those_map_append[OF t] show ?thesis by (simp add: read_palette_def)
qed

lemma palette_map_format_extends:
  "palette_map_format h cs = Some (as, h1) \<Longrightarrow> \<exists>new. h1 = h @ new"
proof (induction cs arbitrary: h as h1)
  case Nil
  then show ?case by simp
next
  case (Cons c cs)
  from Cons.prems obtain i r n as' where
    rest: "palette_map_format (h @ [ColorObj i r (Some (note_or_empty n))]) cs = Some (as', h1)"
    by (auto simp: alloc_def split: option.splits obj.splits prod.splits)
  from Cons.IH[OF rest] show ?case by auto
qed

lemma formatPaletteForAPI_extends:
  "formatPaletteForAPI h p = Some (j, h1) \<Longrightarrow> \<exists>new. h1 = h @ new"
proof -
  assume f: "formatPaletteForAPI h p = Some (j, h1)"
  then obtain cs as h' where m: "palette_map_format h cs = Some (as, h')"
    and h1: "h1 = h' @ [ArrayObj as]"
    by (auto simp: formatPaletteForAPI_def alloc_def split: option.splits obj.splits prod.splits)
  from palette_map_format_extends[OF m] h1 show ?thesis by auto
qed

lemma lookup_length: "lookup (h @ ob # rest) (length h) = Some ob"
  by (simp add: lookup_def)

lemma palette_map_format_wire:
  "those (map (read_color h) cs) = Some vs \<Longrightarrow>
   \<exists>as new. palette_map_format h cs = Some (as, h @ new) \<and>
     (\<forall>extra. those (map (stringify_color (h @ new @ extra)) as) = Some (map wire_color vs))"
proof (induction cs arbitrary: h vs)
  case Nil
  then show ?case by simp
next
  case (Cons c cs)
  from Cons.prems obtain v vs' where v: "read_color h c = Some v"
    and vs': "those (map (read_color h) cs) = Some vs'" and e: "vs = v # vs'"
    by (auto split: option.splits)
  from v obtain i r n where c: "lookup h c = Some (ColorObj i r n)"
    by (auto simp: read_color_def split: option.splits obj.splits)
  with v obtain x y z where g: "lookup h r = Some (RgbObj x y z)"
    and vv: "v = \<lparr>color_id = i, rgb = (x, y, z), color_note = n\<rparr>"
    by (auto simp: read_color_def split: option.splits obj.splits)
  let ?ob = "ColorObj i r (Some (note_or_empty n))"
  from Cons.IH[OF those_map_append[OF vs', of "[?ob]"]] obtain as' new' where
    m: "palette_map_format (h @ [?ob]) cs = Some (as', (h @ [?ob]) @ new')"
    and w: "\<forall>extra. those (map (stringify_color ((h @ [?ob]) @ new' @ extra)) as') = Some (map wire_color vs')"
    by blast
  have pm: "palette_map_format h (c # cs) = Some (length h # as', h @ (?ob # new'))"
    using c m by (simp add: alloc_def)
  have "\<forall>extra. those (map (stringify_color (h @ (?ob # new') @ extra)) (length h # as'))
      = Some (map wire_color vs)"
  proof
    fix extra
    have r: "r < length h" using g by (rule lookup_Some_less)
    have l1: "lookup (h @ ?ob # new' @ extra) (length h) = Some ?ob"
      by (rule lookup_length)
    have l2: "lookup (h @ ?ob # new' @ extra) r = Some (RgbObj x y z)"
      using lookup_append[OF r, of "?ob # new' @ extra"] g by simp
    have s1: "stringify_color (h @ (?ob # new') @ extra) (length h) = Some (wire_color v)"
      by (simp add: stringify_color_def l1 l2 wire_color_def vv)
    from w have "those (map (stringify_color (h @ (?ob # new') @ extra)) as') = Some (map wire_color vs')"
      by simp
    with s1 e show "those (map (stringify_color (h @ (?ob # new') @ extra)) (length h # as'))
      = Some (map wire_color vs)" by simp
  qed
  with pm show ?case by blast
qed

lemma formatPaletteForAPI_wire:
  assumes "read_palette h p = Some vs"
  shows "\<exists>new. formatPaletteForAPI h p = Some (JArr (map wire_color vs), h @ new)"
proof -
  from assms obtain cs where c: "lookup h p = Some (ArrayObj cs)"
    by (auto simp: read_palette_def split: option.splits obj.splits)
  with assms have t: "those (map (read_color h) cs) = Some vs" by (simp add: read_palette_def)
  from palette_map_format_wire[OF t] obtain as new where
    m: "palette_map_format h cs = Some (as, h @ new)"
    and w: "\<forall>extra. those (map (stringify_color (h @ new @ extra)) as) = Some (map wire_color vs)"
    by blast
  have l: "lookup ((h @ new) @ [ArrayObj as]) (length (h @ new)) = Some (ArrayObj as)"
    by (rule lookup_length)
  from w have w': "those (map (stringify_color ((h @ new) @ [ArrayObj as])) as) = Some (map wire_color vs)"
    by simp
  have "formatPaletteForAPI h p = Some (JArr (map wire_color vs), h @ (new @ [ArrayObj as]))"
    using c m l w' by (simp add: formatPaletteForAPI_def alloc_def JSON_stringify_def)
  then show ?thesis by blast
qed

lemma stringify_color_read: "stringify_color h a = map_option json_color (read_color h a)"
  by (simp add: stringify_color_def read_color_def json_color_def split: option.splits obj.splits)

lemma those_map_option:
  "those (map (\<lambda>a. map_option f (g a)) xs) = map_option (map f) (those (map g xs))"
  by (induction xs) (auto split: option.splits simp: option.map_comp comp_def)

lemma stringify_color_fun: "stringify_color h = (\<lambda>a. map_option json_color (read_color h a))"
  by (rule ext) (rule stringify_color_read)

lemma JSON_stringify_read:
  "read_palette h p = Some vs \<Longrightarrow> JSON_stringify h p = Some (JArr (map json_color vs))"
  by (auto simp: read_palette_def JSON_stringify_def stringify_color_fun those_map_option
      split: option.splits obj.splits)

lemma array_length_read: "read_palette h p = Some vs \<Longrightarrow> array_length h p = Some (length vs)"
proof -
  assume r: "read_palette h p = Some vs"
  then obtain cs where c: "lookup h p = Some (ArrayObj cs)"
    by (auto simp: read_palette_def split: option.splits obj.splits)
  with r have t: "those (map (read_color h) cs) = Some vs" by (simp add: read_palette_def)
  have "\<And>ys. those (map (read_color h) cs) = Some ys \<Longrightarrow> length ys = length cs"
    by (induction cs) (auto split: option.splits)
  from this[OF t] c show ?thesis by (simp add: array_length_def)
qed


lemma example_read_palette:
  "read_palette example_heap 0 =
     Some [\<lparr>color_id = ''1'', rgb = (255, 0, 0), color_note = None\<rparr>,
           \<lparr>color_id = ''2'', rgb = (0, 0, 255), color_note = Some ''blue''\<rparr>]"
  by (simp add: read_palette_def read_color_def example_heap_def lookup_def)

section \<open>Proofs: validation, error mapping and response normalization\<close>

lemma generatePaintByNumber_sends:
  assumes "file = Some f" "array_length (heap s) palette = Some n" "2 \<le> n"
    and "1 \<le> complexity" "complexity \<le> 100"
    and "formatPaletteForAPI (heap s) palette = Some (j, h1)"
  shows "generatePaintByNumber env post file palette complexity s =
     (let req = \<lparr> url = API_URL env @ ''/generate'', form_file = f, form_palette = j,
                   form_threshold = complexity, timeout_ms = 120000 \<rparr>;
          s1 = s\<lparr> heap := h1, requests := requests s @ [req] \<rparr>
      in case post req of
           Resolved data \<Rightarrow> (Inr (normalize_response data), s1)
         | out \<Rightarrow> (Inl (map_failure out), s1))"
  using assms by (simp add: generatePaintByNumber_def)

lemma generatePaintByNumber_valid:
  assumes "file = Some f" "read_palette (heap s) palette = Some colors" "2 \<le> length colors"
    and "1 \<le> complexity" "complexity \<le> 100"
  shows "\<exists>new. generatePaintByNumber env post file palette complexity s =
     (let req = \<lparr> url = API_URL env @ ''/generate'', form_file = f,
                   form_palette = JArr (map wire_color colors),
                   form_threshold = complexity, timeout_ms = 120000 \<rparr>;
          s1 = s\<lparr> heap := heap s @ new, requests := requests s @ [req] \<rparr>
      in case post req of
           Resolved data \<Rightarrow> (Inr (normalize_response data), s1)
         | out \<Rightarrow> (Inl (map_failure out), s1))"
proof -
  from formatPaletteForAPI_wire[OF assms(2)] obtain new where
    f: "formatPaletteForAPI (heap s) palette = Some (JArr (map wire_color colors), heap s @ new)"
    by blast
  from generatePaintByNumber_sends[OF assms(1) array_length_read[OF assms(2)] assms(3-5) f, of env post]
  show ?thesis by blast
qed

lemma example_state_palettes:
  "read_palette (heap example_state) 0 =
     Some [\<lparr>color_id = ''1'', rgb = (255, 0, 0), color_note = None\<rparr>,
           \<lparr>color_id = ''2'', rgb = (0, 0, 255), color_note = Some ''blue''\<rparr>]"
  "read_palette (heap example_state) 5 =
     Some [\<lparr>color_id = ''1'', rgb = (255, 0, 0), color_note = None\<rparr>]"
  by (simp_all add: example_state_def read_palette_def read_color_def example_heap_def lookup_def)

text \<open>
  Claim C3. The complexity-slider flow fails before any request is issued when no image
  file is given, when the palette has fewer than two entries, or when the complexity is
  below 1 or above 100: the state (and with it the log of requests) is returned unchanged,
  and the error is the message of the first violated precondition; the three messages are
  pairwise distinct.
\<close>

theorem generatePaintByNumber_validation:
  assumes "read_palette (heap s) palette = Some colors"
    and "file = None \<or> length colors < 2 \<or> complexity < 1 \<or> complexity > 100"
  shows "snd (generatePaintByNumber env post file palette complexity s) = s
     \<and> requests (snd (generatePaintByNumber env post file palette complexity s)) = requests s
     \<and> fst (generatePaintByNumber env post file palette complexity s) =
         Inl (Error (if file = None then ''No image file provided''
                     else if length colors < 2 then ''Palette must have at least 2 colors''
                     else ''Complexity must be between 1 and 100''))
     \<and> ''No image file provided'' \<noteq> ''Palette must have at least 2 colors''
     \<and> ''No image file provided'' \<noteq> ''Complexity must be between 1 and 100''
     \<and> ''Palette must have at least 2 colors'' \<noteq> ''Complexity must be between 1 and 100''"
proof (cases "file")
  case None
  then show ?thesis by (simp add: generatePaintByNumber_def)
next
  case (Some f)
  with assms(2) array_length_read[OF assms(1)] show ?thesis
    by (auto simp: generatePaintByNumber_def)
qed


theorem generatePaintByNumber_validation_witness:
  "fst (generatePaintByNumber None (\<lambda>r. Resolved []) None 0 50 example_state)
     = Inl (Error ''No image file provided'')
   \<and> fst (generatePaintByNumber None (\<lambda>r. Resolved []) (Some example_file) 5 50 example_state)
     = Inl (Error ''Palette must have at least 2 colors'')
   \<and> fst (generatePaintByNumber None (\<lambda>r. Resolved []) (Some example_file) 0 0 example_state)
     = Inl (Error ''Complexity must be between 1 and 100'')
   \<and> fst (generatePaintByNumber None (\<lambda>r. Resolved []) (Some example_file) 0 101 example_state)
     = Inl (Error ''Complexity must be between 1 and 100'')
   \<and> requests (snd (generatePaintByNumber None (\<lambda>r. Resolved []) (Some example_file) 0 101 example_state)) = []"
proof -
  note two = example_state_palettes(1)
  note one = example_state_palettes(2)
  have r: "requests example_state = []" by (simp add: example_state_def)
  from generatePaintByNumber_validation[OF two, of None 50 None "\<lambda>r. Resolved []"]
  have 1: "fst (generatePaintByNumber None (\<lambda>r. Resolved []) None 0 50 example_state)
     = Inl (Error ''No image file provided'')" by simp
  from generatePaintByNumber_validation[OF one, of "Some example_file" 50 None "\<lambda>r. Resolved []"]
  have 2: "fst (generatePaintByNumber None (\<lambda>r. Resolved []) (Some example_file) 5 50 example_state)
     = Inl (Error ''Palette must have at least 2 colors'')" by simp
  from generatePaintByNumber_validation[OF two, of "Some example_file" 0 None "\<lambda>r. Resolved []"]
  have 3: "fst (generatePaintByNumber None (\<lambda>r. Resolved []) (Some example_file) 0 0 example_state)
     = Inl (Error ''Complexity must be between 1 and 100'')" by simp
  from generatePaintByNumber_validation[OF two, of "Some example_file" 101 None "\<lambda>r. Resolved []"] r
  have 4: "fst (generatePaintByNumber None (\<lambda>r. Resolved []) (Some example_file) 0 101 example_state)
     = Inl (Error ''Complexity must be between 1 and 100'')"
    and 5: "requests (snd (generatePaintByNumber None (\<lambda>r. Resolved []) (Some example_file) 0 101 example_state)) = []"
    by simp_all
  from 1 2 3 4 5 show ?thesis by simp
qed

text \<open>
  Claim C7. When the request of a valid call fails, the outcome is mapped to one error:
  status 400 to the invalid-request message with the server's detail, 413 and 415 to
  their fixed messages, 500 to the server-error message with the detail, every other
  status to the request-failed message with the status and the detail, and a request
  without any response to the fixed connectivity message. The detail is the server's
  \<open>detail\<close> text, or \<open>Unknown error\<close> when the response carries none.
\<close>

theorem generatePaintByNumber_error_mapping:
  assumes "file = Some f" "read_palette (heap s) palette = Some colors" "2 \<le> length colors"
    and "1 \<le> complexity" "complexity \<le> 100"
    and "\<forall>r. post r = AxiosError response request_made msg"
  shows "(\<forall>resp. response = Some resp \<longrightarrow>
          fst (generatePaintByNumber env post file palette complexity s) =
            Inl (Error
              (if status resp = 400 then ''Invalid request: '' @ detail_or_unknown (detail resp)
               else if status resp = 413 then ''Image file is too large. Maximum size is 10MB.''
               else if status resp = 415 then ''Unsupported file type. Use PNG, JPEG, or WEBP.''
               else if status resp = 500 then ''Server error: '' @ detail_or_unknown (detail resp)
               else ''Request failed ('' @ toString10 (status resp) @ ''): ''
                      @ detail_or_unknown (detail resp)))
          \<and> (\<forall>d. detail resp = Some d \<and> d \<noteq> [] \<longrightarrow> detail_or_unknown (detail resp) = d))
     \<and> (response = None \<and> request_made \<longrightarrow>
          fst (generatePaintByNumber env post file palette complexity s) =
            Inl (Error ''Could not connect to server. Please check your internet connection.''))"
proof -
  from generatePaintByNumber_valid[OF assms(1-5), of env post] assms(6)
  have g: "fst (generatePaintByNumber env post file palette complexity s) =
      Inl (map_failure (AxiosError response request_made msg))"
    by (auto simp: Let_def)
  show ?thesis
    unfolding g by (auto simp: map_failure_def detail_or_unknown_def Let_def)
qed


theorem generatePaintByNumber_error_mapping_witness:
  "fst (generatePaintByNumber None (\<lambda>r. AxiosError (Some \<lparr>status = 404, detail = Some ''nope''\<rparr>) True ''e'')
         (Some example_file) 0 50 example_state) = Inl (Error ''Request failed (404): nope'')
   \<and> fst (generatePaintByNumber None (\<lambda>r. AxiosError (Some \<lparr>status = 413, detail = Some ''big''\<rparr>) True ''e'')
         (Some example_file) 0 50 example_state)
       = Inl (Error ''Image file is too large. Maximum size is 10MB.'')
   \<and> fst (generatePaintByNumber None (\<lambda>r. AxiosError None True ''e'')
         (Some example_file) 0 50 example_state)
       = Inl (Error ''Could not connect to server. Please check your internet connection.'')"
proof -
  have t: "toString10 404 = ''404''"
    by (simp add: toString10.simps digit_char_def digit_chars_def)
  note m = generatePaintByNumber_error_mapping[OF refl example_state_palettes(1), of 50, simplified]
  from m[of "\<lambda>r. AxiosError (Some \<lparr>status = 404, detail = Some ''nope''\<rparr>) True ''e''"
          "Some \<lparr>status = 404, detail = Some ''nope''\<rparr>" True "''e''" None] t
  have 1: "fst (generatePaintByNumber None (\<lambda>r. AxiosError (Some \<lparr>status = 404, detail = Some ''nope''\<rparr>) True ''e'')
         (Some example_file) 0 50 example_state) = Inl (Error ''Request failed (404): nope'')"
    by (simp add: detail_or_unknown_def)
  from m[of "\<lambda>r. AxiosError (Some \<lparr>status = 413, detail = Some ''big''\<rparr>) True ''e''"
          "Some \<lparr>status = 413, detail = Some ''big''\<rparr>" True "''e''" None]
  have 2: "fst (generatePaintByNumber None (\<lambda>r. AxiosError (Some \<lparr>status = 413, detail = Some ''big''\<rparr>) True ''e'')
         (Some example_file) 0 50 example_state)
       = Inl (Error ''Image file is too large. Maximum size is 10MB.'')"
    by simp
  from m[of "\<lambda>r. AxiosError None True ''e''" None True "''e''" None]
  have 3: "fst (generatePaintByNumber None (\<lambda>r. AxiosError None True ''e'')
         (Some example_file) 0 50 example_state)
       = Inl (Error ''Could not connect to server. Please check your internet connection.'')"
    by simp
  from 1 2 3 show ?thesis by simp
qed

lemma example_sends:
  "fst (generatePaintByNumber None (\<lambda>r. Resolved data) (Some example_file) 0 50 example_state)
     = Inr (normalize_response data)"
  using generatePaintByNumber_valid[OF refl example_state_palettes(1),
      where f = example_file and complexity = 50 and env = None and post = "\<lambda>r. Resolved data"]
  by (auto simp: Let_def)

text \<open>
  Claim C4, as stated, fails on its last part: with both conventions present the
  camelCase field is not the one preferred. A response with \<open>region_count: 5\<close> and
  \<open>regionCount: 7\<close> yields the count 5.
\<close>

theorem normalization_prefers_snake_case_counterexample:
  "regionCount (projr (fst (generatePaintByNumber None
        (\<lambda>r. Resolved [(''region_count'', Num 5), (''regionCount'', Num 7)])
        (Some example_file) 0 50 example_state))) = Num 5
   \<and> regionCount (projr (fst (generatePaintByNumber None
        (\<lambda>r. Resolved [(''region_count'', Num 5), (''regionCount'', Num 7)])
        (Some example_file) 0 50 example_state))) \<noteq> Num 7"
  by (simp add: example_sends normalize_response_def field_def js_or_def truthy_def)

text \<open>
  Claim C4, amended. On a success response the call returns a result whose
  \<open>regionCount\<close> is the \<open>region_count\<close> field when that is truthy (present and non-zero),
  otherwise the \<open>regionCount\<close> field when that is truthy, otherwise 0; \<open>colorsUsed\<close>
  likewise from \<open>colors_used\<close> and \<open>colorsUsed\<close>. So a response with only
  \<open>region_count: 7\<close> gives 7, a response with neither field gives 0, and a response with
  both fields gives the snake_case value whenever that is non-zero.
\<close>

theorem generatePaintByNumber_normalization:
  assumes "file = Some f" "read_palette (heap s) palette = Some colors" "2 \<le> length colors"
    and "1 \<le> complexity" "complexity \<le> 100"
    and "\<forall>r. post r = Resolved data"
  shows "\<exists>res. fst (generatePaintByNumber env post file palette complexity s) = Inr res
     \<and> regionCount res =
         (if truthy (field data ''region_count'') then field data ''region_count''
          else if truthy (field data ''regionCount'') then field data ''regionCount''
          else Num 0)
     \<and> colorsUsed res =
         (if truthy (field data ''colors_used'') then field data ''colors_used''
          else if truthy (field data ''colorsUsed'') then field data ''colorsUsed''
          else Num 0)
     \<and> (map_of data ''region_count'' = Some (Num 7) \<and> map_of data ''regionCount'' = None
          \<longrightarrow> regionCount res = Num 7)
     \<and> (map_of data ''region_count'' = None \<and> map_of data ''regionCount'' = None
          \<longrightarrow> regionCount res = Num 0)
     \<and> (map_of data ''colors_used'' = None \<and> map_of data ''colorsUsed'' = None
          \<longrightarrow> colorsUsed res = Num 0)
     \<and> (\<forall>a b. map_of data ''region_count'' = Some (Num a) \<and> a \<noteq> 0
              \<and> map_of data ''regionCount'' = Some (Num b)
          \<longrightarrow> regionCount res = Num a)"
proof -
  from generatePaintByNumber_valid[OF assms(1-5), of env post] assms(6)
  have g: "fst (generatePaintByNumber env post file palette complexity s) =
      Inr (normalize_response data)"
    by (auto simp: Let_def)
  show ?thesis
    unfolding g by (auto simp: normalize_response_def js_or_def field_def truthy_def)
qed


theorem generatePaintByNumber_normalization_witness:
  "(\<exists>res. fst (generatePaintByNumber None (\<lambda>r. Resolved [(''region_count'', Num 7)])
               (Some example_file) 0 50 example_state) = Inr res \<and> regionCount res = Num 7)
   \<and> (\<exists>res. fst (generatePaintByNumber None (\<lambda>r. Resolved [])
               (Some example_file) 0 50 example_state) = Inr res
           \<and> regionCount res = Num 0 \<and> colorsUsed res = Num 0)"
proof -
  have c: "(1::int) \<le> 50" "(50::int) \<le> 100"
    "2 \<le> length [\<lparr>color_id = ''1'', rgb = (255, 0, 0), color_note = None\<rparr>,
                 \<lparr>color_id = ''2'', rgb = (0, 0, 255), color_note = Some ''blue''\<rparr>]"
    by simp_all
  have a1: "\<forall>r. (\<lambda>r. Resolved [(''region_count'', Num 7)]) r = Resolved [(''region_count'', Num 7)]"
    by simp
  have a2: "\<forall>r. (\<lambda>r. Resolved []) r = Resolved []" by simp
  from generatePaintByNumber_normalization[OF refl example_state_palettes(1) c(3) c(1) c(2) a1, of None]
  have 1: "\<exists>res. fst (generatePaintByNumber None (\<lambda>r. Resolved [(''region_count'', Num 7)])
               (Some example_file) 0 50 example_state) = Inr res \<and> regionCount res = Num 7"
    by auto
  from generatePaintByNumber_normalization[OF refl example_state_palettes(1) c(3) c(1) c(2) a2, of None]
  have 2: "\<exists>res. fst (generatePaintByNumber None (\<lambda>r. Resolved [])
               (Some example_file) 0 50 example_state) = Inr res
           \<and> regionCount res = Num 0 \<and> colorsUsed res = Num 0"
    by auto
  from 1 2 show ?thesis by blast
qed

section \<open>Proofs: image normalizer\<close>

text \<open>The doubles met in the examples below, each the rounding of an exact quotient or product.\<close>

lemma fl_2000_1000:
  "fl (1200 / 2000) = 5404319552844595 / 9007199254740992"
  "fl (1200 / 1000) = 5404319552844595 / 4503599627370496"
  "fl (2000 * (5404319552844595 / 9007199254740992)) = 1200"
  "fl (1000 * (5404319552844595 / 9007199254740992)) = 600"
  by code_simp+

lemma fl_2400_1201:
  "fl (1201 / 2400) = 4507352627059971 / 9007199254740992"
  "fl (4507352627059971 / 9007199254740992 * 1200) = 1201 / 2"
  "fl (1200 / 2400) = 1 / 2"
  "fl (1200 / 1201) = 2249924876288341 / 2251799813685248"
  "fl (2400 * (1 / 2)) = 1200"
  "fl (1201 * (1 / 2)) = 1201 / 2"
  by code_simp+

lemma fl_77_1760:
  "fl (1200 / 77) = 4386623013672561 / 281474976710656"
  "fl (1200 / 1760) = 6141272219141585 / 9007199254740992"
  "fl (77 * (6141272219141585 / 9007199254740992)) = 7388718138654719 / 140737488355328"
  "fl (1760 * (6141272219141585 / 9007199254740992)) = 1200"
  by code_simp+

lemma fl_121_1320:
  "fl (121 / 1320) = 6605279453476727 / 72057594037927936"
  "fl (6605279453476727 / 72057594037927936 * 1200) = 7740561859543039 / 70368744177664"
  by code_simp+

lemma fl_3600_1202:
  "fl (1202 / 3600) = 1503701875583149 / 4503599627370496"
  "fl (1503701875583149 / 4503599627370496 * 1200) = 7048602541796011 / 17592186044416"
  by code_simp+

lemma compressImage_dimensions_2000_1000:
  "compressImage_dimensions 2000 1000 1200 1200 = (1200, 600)"
proof -
  have m: "min (5404319552844595 / 9007199254740992) (5404319552844595 / 4503599627370496 :: rat)
      = 5404319552844595 / 9007199254740992" by simp
  have r: "Math_round 1200 = 1200" "Math_round 600 = 600" by code_simp+
  have "compressImage_dimensions 2000 1000 1200 1200 =
      (let ratio = min (fl (1200 / 2000)) (fl (1200 / 1000))
       in (Math_round (fl (2000 * ratio)), Math_round (fl (1000 * ratio))))"
    by (simp add: compressImage_dimensions_def)
  then show ?thesis by (simp only: fl_2000_1000 m Let_def r)
qed

lemma compressImage_example:
  "compressImage \<lparr>reader_ok = True, image_size = Some (2000, 1000), context_ok = True,
       blob_ok = True\<rparr> example_file \<lparr>maxWidth = None, maxHeight = None, quality = None\<rparr>
     = Inr \<lparr>out_name = ''photo.jpg'', out_type = ''image/jpeg'', out_width = 1200,
            out_height = 600, out_quality = 17 / 20\<rparr>"
  by (simp add: compressImage_def compressImage_dimensions_2000_1000
      replace_extension_def example_file_def)

text \<open>
  The rounding of the quotient and of the product shows in the result of \<open>compressImage\<close>
  of utils.ts: for a 77 by 1760 image the exact scaled width is 52.5, which rounds to
  53; the doubles give \<open>52.49999999999999\<close> and \<open>Math.round\<close> returns 52.
\<close>

lemma compressImage_dimensions_77_1760:
  "compressImage_dimensions 77 1760 1200 1200 = (52, 1200)
   \<and> of_nat 77 * scale_factor 77 1760 1200 1200 = 105 / 2
   \<and> Math_round (of_nat 77 * scale_factor 77 1760 1200 1200) = 53"
proof -
  have m: "min (4386623013672561 / 281474976710656) (6141272219141585 / 9007199254740992 :: rat)
      = 6141272219141585 / 9007199254740992" by simp
  have r: "Math_round (7388718138654719 / 140737488355328) = 52" "Math_round 1200 = 1200"
    "Math_round (105 / 2) = 53" by code_simp+
  have "compressImage_dimensions 77 1760 1200 1200 =
      (let ratio = min (fl (1200 / 77)) (fl (1200 / 1760))
       in (Math_round (fl (77 * ratio)), Math_round (fl (1760 * ratio))))"
    by (simp add: compressImage_dimensions_def)
  then have d: "compressImage_dimensions 77 1760 1200 1200 = (52, 1200)"
    by (simp only: fl_77_1760 m Let_def r)
  have s: "of_nat 77 * scale_factor 77 1760 1200 1200 = (105 / 2 :: rat)"
    by (simp add: scale_factor_def)
  from d s r(3) show ?thesis by (simp only:)
qed

text \<open>
  The second \<open>compressImage\<close> away from ties: a 3600 by 1202 image gets the height
  \<open>400.6666666666667\<close>, which the canvas cuts to 400, where rounding gives 401; a 121 by
  1320 image gets the width \<open>109.99999999999999\<close>, cut to 109, where the exact scaled
  width is 110.
\<close>

lemma compressImage_v1_3600_1202:
  "compressImage_v1 \<lparr>reader_ok = True, image_size = Some (3600, 1202), context_ok = True,
         blob_ok = True\<rparr> example_file 1200 (4 / 5)
       = Inr \<lparr>out_name = [], out_type = ''image/jpeg'', out_width = 1200, out_height = 400,
              out_quality = 4 / 5\<rparr>
   \<and> Math_round (of_nat 1202 * scale_factor 3600 1202 1200 1200) = 401"
proof -
  have "compressImage_v1_dimensions 3600 1202 1200 = (1200, fl (fl (1202 / 3600) * 1200))"
    by (simp add: compressImage_v1_dimensions_def)
  then have d: "compressImage_v1_dimensions 3600 1202 1200
      = (1200, 7048602541796011 / 17592186044416)"
    by (simp only: fl_3600_1202)
  have c: "canvas_size 1200 = 1200" "canvas_size (7048602541796011 / 17592186044416) = 400"
    by code_simp+
  have s: "scale_factor 3600 1202 1200 1200 = 1 / 3"
    by (simp add: scale_factor_def)
  have r: "Math_round (1202 / 3) = 401" by code_simp
  show ?thesis by (simp add: d c s r compressImage_v1_def)
qed

lemma compressImage_v1_121_1320:
  "compressImage_v1 \<lparr>reader_ok = True, image_size = Some (121, 1320), context_ok = True,
         blob_ok = True\<rparr> example_file 1200 (4 / 5)
       = Inr \<lparr>out_name = [], out_type = ''image/jpeg'', out_width = 109, out_height = 1200,
              out_quality = 4 / 5\<rparr>
   \<and> of_nat 121 * scale_factor 121 1320 1200 1200 = 110"
proof -
  have "compressImage_v1_dimensions 121 1320 1200 = (fl (fl (121 / 1320) * 1200), 1200)"
    by (simp add: compressImage_v1_dimensions_def)
  then have d: "compressImage_v1_dimensions 121 1320 1200
      = (7740561859543039 / 70368744177664, 1200)"
    by (simp only: fl_121_1320)
  have c: "canvas_size 1200 = 1200" "canvas_size (7740561859543039 / 70368744177664) = 109"
    by code_simp+
  have s: "scale_factor 121 1320 1200 1200 = 10 / 11"
    by (simp add: scale_factor_def)
  show ?thesis by (simp add: d c s compressImage_v1_def)
qed

text \<open>
  Claim C5. \<open>compressImage\<close> of utils.ts applies \<open>Math.round\<close> to both scaled
  dimensions. The second \<open>compressImage\<close>, the one that \<open>generatePaintByNumber\<close> with
  progress reporting calls, does not round: for a 2400 by 1201 image and the default
  bound 1200 it computes the height 600.5, which the canvas truncates to 600, where the
  claim and the first function give 601.
\<close>

theorem compressImage_v1_not_rounded:
  "compressImage_v1_dimensions 2400 1201 1200 = (1200, 1201 / 2)
   \<and> compressImage_v1 \<lparr>reader_ok = True, image_size = Some (2400, 1201), context_ok = True,
         blob_ok = True\<rparr> example_file 1200 (4 / 5)
       = Inr \<lparr>out_name = [], out_type = ''image/jpeg'', out_width = 1200, out_height = 600,
              out_quality = 4 / 5\<rparr>
   \<and> (Math_round (of_nat 2400 * scale_factor 2400 1201 1200 1200),
       Math_round (of_nat 1201 * scale_factor 2400 1201 1200 1200)) = (1200, 601)
   \<and> compressImage_dimensions 2400 1201 1200 1200 = (1200, 601)"
proof -
  have "compressImage_v1_dimensions 2400 1201 1200 = (1200, fl (fl (1201 / 2400) * 1200))"
    by (simp add: compressImage_v1_dimensions_def)
  then have d: "compressImage_v1_dimensions 2400 1201 1200 = (1200, 1201 / 2)"
    by (simp only: fl_2400_1201)
  have c: "canvas_size 1200 = 1200" "canvas_size (1201 / 2) = 600"
    by (simp_all add: canvas_size_def floor_eq_iff)
  have s: "scale_factor 2400 1201 1200 1200 = 1 / 2"
    by (simp add: scale_factor_def)
  have r: "Math_round 1200 = 1200" "Math_round (1201 / 2) = 601"
    by (simp_all add: Math_round_def floor_eq_iff)
  have m: "min (1 / 2) (2249924876288341 / 2251799813685248 :: rat) = 1 / 2" by simp
  have "compressImage_dimensions 2400 1201 1200 1200 =
      (let ratio = min (fl (1200 / 2400)) (fl (1200 / 1201))
       in (Math_round (fl (2400 * ratio)), Math_round (fl (1201 * ratio))))"
    by (simp add: compressImage_dimensions_def)
  then have v: "compressImage_dimensions 2400 1201 1200 1200 = (1200, 601)"
    by (simp only: fl_2400_1201 m Let_def r)
  show ?thesis
    by (simp add: d c s r v compressImage_v1_def)
qed

section \<open>Proofs: progress reporting\<close>

lemma heap_report [simp]: "heap (report b v s) = heap s"
  by (simp add: report_def)

lemma requests_report [simp]: "requests (report b v s) = requests s"
  by (simp add: report_def)

lemma heap_onUploadProgress [simp]: "heap (onUploadProgress b s ev) = heap s"
  by (cases ev) (simp add: onUploadProgress_def split: option.splits)

lemma heap_foldl_upload [simp]: "heap (foldl (onUploadProgress b) s evs) = heap s"
  by (induction evs arbitrary: s) simp_all

lemma foldl_upload_state:
  "foldl (onUploadProgress True) s evs =
     s\<lparr> trace := trace s @ map (\<lambda>x. Progress (30 + x * 40)) (upload_fractions evs) \<rparr>"
proof (induction evs arbitrary: s)
  case Nil
  then show ?case by (simp add: upload_fractions_def)
next
  case (Cons ev evs)
  obtain l t where ev: "ev = (l, t)" by (cases ev)
  show ?case
    using Cons.IH[of "onUploadProgress True s ev"]
    by (cases t) (auto simp: ev onUploadProgress_def upload_fractions_def report_def)
qed

lemma v1_success_trace:
  assumes "compressImage_v1 canvas imageFile 1200 (4 / 5) = Inr c"
    and "JSON_stringify (heap s) palette = Some j"
    and "\<forall>r. post r = Resolved data"
  shows "generatePaintByNumber_v1 env canvas uploads post imageFile palette threshold True s =
     (Inr data,
      s\<lparr> requests := requests s @
             [\<lparr> url = API_URL env @ ''/generate'',
                form_file = \<lparr>file_name = file_name imageFile, file_type = out_type c\<rparr>,
                form_palette = j, form_threshold = threshold, timeout_ms = 0 \<rparr>],
          trace := trace s @ [Progress 10, Progress 20, Progress 30, RequestSent]
             @ map (\<lambda>x. Progress (30 + x * 40)) (upload_fractions uploads)
             @ [ResponseReceived, Progress 100] \<rparr>)"
  using assms
  by (simp add: generatePaintByNumber_v1_def Let_def foldl_upload_state report_def)


lemma progress_values_append [simp]:
  "progress_values (xs @ ys) = progress_values xs @ progress_values ys"
  by (simp add: progress_values_def)

lemma progress_values_map_Progress [simp]:
  "progress_values (map (\<lambda>x. Progress (f x)) xs) = map f xs"
  by (induction xs) (simp_all add: progress_values_def)

lemma before_response_split:
  "ResponseReceived \<notin> set xs \<Longrightarrow> before_response (xs @ ResponseReceived # ys) = xs"
  by (induction xs) (auto simp: before_response_def)

lemma sorted_upload_values:
  assumes "sorted fr" "\<forall>x \<in> set fr. 0 \<le> x \<and> x \<le> (1::rat)"
  shows "sorted ([10, 20, 30] @ map (\<lambda>x. 30 + x * 40) fr @ [100])"
proof -
  have m: "sorted (map (\<lambda>x. 30 + x * 40) fr)"
    using assms(1) by (induction fr) (auto simp: mult_right_mono)
  have b: "\<forall>v \<in> set (map (\<lambda>x. 30 + x * 40) fr). 30 \<le> v \<and> v \<le> 100"
    using assms(2) by auto
  from m b show ?thesis by (auto simp: sorted_append)
qed

lemma upload_fractions_nonneg: "\<forall>x \<in> set (upload_fractions uploads). 0 \<le> x"
  by (induction uploads) (auto simp: upload_fractions_def split: option.splits)

text \<open>
  Claim C8. In a successful attempt of the flow with progress reporting, with a callback
  passed, the values handed to \<open>onProgress\<close> never decrease, the last one is 100, and no
  value reported before the response arrives is 100 (none exceeds 70). A successful
  attempt is one whose image is compressed, whose palette is well formed and whose request
  resolves. It is assumed of the upload progress events that the fraction
  \<open>loaded / total\<close> they carry never decreases and never exceeds 1.
\<close>

theorem progress_monotone:
  assumes "compressImage_v1 canvas imageFile 1200 (4 / 5) = Inr c"
    and "read_palette (heap s) palette = Some colors"
    and "\<forall>r. post r = Resolved data"
    and "sorted (upload_fractions uploads)"
    and "\<forall>x \<in> set (upload_fractions uploads). x \<le> 1"
  shows "fst (generatePaintByNumber_v1 env canvas uploads post imageFile palette threshold True s)
           = Inr data
     \<and> (let tr = drop (length (trace s))
              (trace (snd (generatePaintByNumber_v1 env canvas uploads post imageFile palette
                        threshold True s)))
        in sorted (progress_values tr)
           \<and> progress_values tr \<noteq> []
           \<and> last (progress_values tr) = 100
           \<and> ResponseReceived \<in> set tr
           \<and> (\<forall>v \<in> set (progress_values (before_response tr)). v \<le> 70 \<and> v \<noteq> 100))"
proof -
  note ok = assms(1) JSON_stringify_read[OF assms(2)] assms(3)
  let ?fr = "upload_fractions uploads"
  let ?up = "map (\<lambda>x. Progress (30 + x * 40)) ?fr"
  let ?pre = "[Progress 10, Progress 20, Progress 30, RequestSent] @ ?up"
  have tr: "drop (length (trace s))
              (trace (snd (generatePaintByNumber_v1 env canvas uploads post imageFile palette
                        threshold True s))) = ?pre @ ResponseReceived # [Progress 100]"
    by (simp add: v1_success_trace[OF ok])
  have res: "fst (generatePaintByNumber_v1 env canvas uploads post imageFile palette threshold True s)
           = Inr data"
    by (simp add: v1_success_trace[OF ok])
  have fr: "\<forall>x \<in> set ?fr. 0 \<le> x \<and> x \<le> 1"
    using assms(5) upload_fractions_nonneg[of uploads] by blast
  have notin: "ResponseReceived \<notin> set ?pre" by auto
  have br: "before_response (?pre @ ResponseReceived # [Progress 100]) = ?pre"
    using notin by (rule before_response_split)
  have pv: "progress_values (?pre @ ResponseReceived # [Progress 100])
      = [10, 20, 30] @ map (\<lambda>x. 30 + x * 40) ?fr @ [100]"
    by (simp add: progress_values_def comp_def)
  have pvpre: "progress_values ?pre = [10, 20, 30] @ map (\<lambda>x. 30 + x * 40) ?fr"
    by (simp add: progress_values_def comp_def)
  have s: "sorted ([10, 20, 30] @ map (\<lambda>x. 30 + x * 40) ?fr @ [100])"
    using assms(4) fr by (rule sorted_upload_values)
  have le: "\<forall>v \<in> set ([10, 20, 30] @ map (\<lambda>x. 30 + x * 40) ?fr). v \<le> 70 \<and> v \<noteq> 100"
    using fr by auto
  show ?thesis
    unfolding tr Let_def br pv pvpre using res s le by simp
qed


lemma example_compress_v1:
  "compressImage_v1 example_canvas example_file 1200 (4 / 5) =
     Inr \<lparr>out_name = [], out_type = ''image/jpeg'', out_width = 1200, out_height = 600,
           out_quality = 4 / 5\<rparr>"
proof -
  have f: "fl (1000 / 2000) = 1 / 2" "fl (1 / 2 * 1200) = 600" by code_simp+
  have "compressImage_v1_dimensions 2000 1000 1200 = (1200, fl (fl (1000 / 2000) * 1200))"
    by (simp add: compressImage_v1_dimensions_def)
  then have d: "compressImage_v1_dimensions 2000 1000 1200 = (1200, 600)"
    by (simp only: f)
  show ?thesis
    by (simp add: compressImage_v1_def example_canvas_def d canvas_size_def)
qed

theorem progress_monotone_witness:
  "sorted (progress_values (trace (snd (generatePaintByNumber_v1 None example_canvas
       [(0, Some 100), (50, Some 100), (100, Some 100)] (\<lambda>r. Resolved []) example_file 0 50 True
       example_progress_state))))
   \<and> last (progress_values (trace (snd (generatePaintByNumber_v1 None example_canvas
       [(0, Some 100), (50, Some 100), (100, Some 100)] (\<lambda>r. Resolved []) example_file 0 50 True
       example_progress_state)))) = 100"
proof -
  have h: "read_palette (heap example_progress_state) 0 =
     Some [\<lparr>color_id = ''1'', rgb = (255, 0, 0), color_note = None\<rparr>,
           \<lparr>color_id = ''2'', rgb = (0, 0, 255), color_note = Some ''blue''\<rparr>]"
    by (simp add: example_progress_state_def example_read_palette)
  have p: "\<forall>r. (\<lambda>r. Resolved []) r = Resolved []" by simp
  have f: "upload_fractions [(0, Some 100), (50, Some 100), (100, Some 100)] = [0, 1 / 2, 1]"
    by (simp add: upload_fractions_def)
  have so: "sorted (upload_fractions [(0, Some 100), (50, Some 100), (100, Some 100)])"
    unfolding f by simp
  have le: "\<forall>x \<in> set (upload_fractions [(0, Some 100), (50, Some 100), (100, Some 100)]). x \<le> 1"
    unfolding f by simp
  have t: "trace example_progress_state = []" by (simp add: example_progress_state_def)
  from progress_monotone[OF example_compress_v1 h p so le, of None 50]
  show ?thesis by (simp add: t Let_def)
qed

section \<open>Proofs: the palette is not mutated\<close>

lemma generatePaintByNumber_heap_extends:
  "\<exists>new. heap (snd (generatePaintByNumber env post file palette complexity s)) = heap s @ new"
proof (cases "formatPaletteForAPI (heap s) palette")
  case None
  then show ?thesis
    by (auto simp: generatePaintByNumber_def split: option.splits)
next
  case (Some r)
  obtain j h1 where r: "r = (j, h1)" by (cases r)
  from formatPaletteForAPI_extends[OF Some[unfolded r]] obtain new where n: "h1 = heap s @ new" ..
  show ?thesis
    using Some r n
    by (auto simp: generatePaintByNumber_def Let_def split: option.splits axios_outcome.splits
        intro: exI[of _ "[]"])
qed

lemma generatePaintByNumber_v1_heap:
  "heap (snd (generatePaintByNumber_v1 env canvas uploads post imageFile palette threshold onProgress s))
     = heap s"
  by (simp add: generatePaintByNumber_v1_def Let_def split: sum.splits option.splits axios_outcome.splits)


lemma requests_onUploadProgress [simp]: "requests (onUploadProgress b s ev) = requests s"
  by (cases ev) (simp add: onUploadProgress_def split: option.splits)

lemma requests_foldl_upload [simp]: "requests (foldl (onUploadProgress b) s evs) = requests s"
  by (induction evs arbitrary: s) simp_all

lemma generatePaintByNumber_request:
  assumes "read_palette (heap s) palette = Some colors" "file = Some f" "2 \<le> length colors"
    and "1 \<le> complexity" "complexity \<le> 100"
  shows "\<exists>req. requests (snd (generatePaintByNumber env post file palette complexity s))
            = requests s @ [req] \<and> form_palette req = JArr (map wire_color colors)"
proof -
  from formatPaletteForAPI_wire[OF assms(1)] obtain new where
    f: "formatPaletteForAPI (heap s) palette = Some (JArr (map wire_color colors), heap s @ new)"
    by blast
  note g = generatePaintByNumber_sends[OF assms(2) array_length_read[OF assms(1)] assms(3-5) f,
      of env post]
  show ?thesis
    unfolding g Let_def by (cases "post \<lparr> url = API_URL env @ ''/generate'', form_file = f,
        form_palette = JArr (map wire_color colors), form_threshold = complexity,
        timeout_ms = 120000 \<rparr>") simp_all
qed

lemma generatePaintByNumber_v1_request:
  assumes "read_palette (heap t) palette = Some colors"
    and "compressImage_v1 canvas imageFile 1200 (4 / 5) = Inr c"
  shows "\<exists>req. requests (snd (generatePaintByNumber_v1 env canvas uploads post imageFile palette
              threshold onProgress t)) = requests t @ [req]
          \<and> form_palette req = JArr (map json_color colors)"
proof -
  note j = JSON_stringify_read[OF assms(1)]
  show ?thesis
    by (cases "post \<lparr> url = API_URL env @ ''/generate'',
        form_file = \<lparr>file_name = file_name imageFile, file_type = out_type c\<rparr>,
        form_palette = JArr (map json_color colors), form_threshold = threshold,
        timeout_ms = 0 \<rparr>")
      (simp_all add: generatePaintByNumber_v1_def Let_def assms(2) j)
qed

text \<open>
  Claim C9. Neither generation flow changes the caller's palette. In the store reached
  by \<open>generatePaintByNumber\<close> every object that existed before the call is unchanged
  (the call only allocates the formatted copy), and the flow with progress reporting
  leaves the store as it was; so the palette read after the call, whether it succeeded or
  failed, has the same entries in the same order with the same \<open>id\<close>, \<open>rgb\<close> and \<open>note\<close>.
  What the request carries is the serialized value of the palette: the JSON array of its
  entries.
\<close>

theorem palette_not_mutated:
  "(\<forall>a < length (heap s).
       lookup (heap (snd (generatePaintByNumber env post file palette complexity s))) a
         = lookup (heap s) a)
   \<and> (read_palette (heap s) palette = Some colors \<longrightarrow>
        read_palette (heap (snd (generatePaintByNumber env post file palette complexity s))) palette
          = Some colors)
   \<and> heap (snd (generatePaintByNumber_v1 env canvas uploads post imageFile palette threshold
              onProgress t)) = heap t
   \<and> (read_palette (heap s) palette = Some colors \<and> file = Some f \<and> 2 \<le> length colors
        \<and> 1 \<le> complexity \<and> complexity \<le> 100 \<longrightarrow>
        (\<exists>req. requests (snd (generatePaintByNumber env post file palette complexity s))
            = requests s @ [req] \<and> form_palette req = JArr (map wire_color colors)))
   \<and> (read_palette (heap t) palette = Some colors
        \<and> compressImage_v1 canvas imageFile 1200 (4 / 5) = Inr c \<longrightarrow>
        (\<exists>req. requests (snd (generatePaintByNumber_v1 env canvas uploads post imageFile palette
              threshold onProgress t)) = requests t @ [req]
          \<and> form_palette req = JArr (map json_color colors)))"
proof -
  obtain new where n: "heap (snd (generatePaintByNumber env post file palette complexity s))
      = heap s @ new"
    using generatePaintByNumber_heap_extends[of env post "file" palette complexity s] by blast
  have 1: "\<forall>a < length (heap s).
       lookup (heap (snd (generatePaintByNumber env post file palette complexity s))) a
         = lookup (heap s) a"
    unfolding n by (simp add: lookup_append)
  have 2: "read_palette (heap s) palette = Some colors \<longrightarrow>
        read_palette (heap (snd (generatePaintByNumber env post file palette complexity s))) palette
          = Some colors"
    unfolding n by (simp add: read_palette_append)
  show ?thesis
    using 1 2 generatePaintByNumber_v1_heap[of env canvas uploads post imageFile palette threshold
        onProgress t]
      generatePaintByNumber_request[of s palette colors "file" f complexity env post]
      generatePaintByNumber_v1_request[of t palette colors canvas imageFile c env uploads post
        threshold onProgress]
    by blast
qed


theorem palette_not_mutated_witness:
  "read_palette (heap (snd (generatePaintByNumber None (\<lambda>r. Resolved []) (Some example_file) 0 50
        example_state))) 0 =
     Some [\<lparr>color_id = ''1'', rgb = (255, 0, 0), color_note = None\<rparr>,
           \<lparr>color_id = ''2'', rgb = (0, 0, 255), color_note = Some ''blue''\<rparr>]
   \<and> heap (snd (generatePaintByNumber_v1 None example_canvas [] (\<lambda>r. Resolved []) example_file 0 50
        True example_progress_state)) = example_heap
   \<and> (\<exists>req. requests (snd (generatePaintByNumber None (\<lambda>r. Resolved []) (Some example_file) 0 50
        example_state)) = [req]
        \<and> form_palette req =
            JArr [JObj [(''id'', JStr ''1''), (''rgb'', JArr [JNum 255, JNum 0, JNum 0]), (''note'', JStr [])],
                  JObj [(''id'', JStr ''2''), (''rgb'', JArr [JNum 0, JNum 0, JNum 255]),
                        (''note'', JStr ''blue'')]])"
proof -
  have r: "read_palette (heap example_state) 0 =
     Some [\<lparr>color_id = ''1'', rgb = (255, 0, 0), color_note = None\<rparr>,
           \<lparr>color_id = ''2'', rgb = (0, 0, 255), color_note = Some ''blue''\<rparr>]"
    by (simp add: example_state_def example_read_palette)
  have h: "heap example_progress_state = example_heap" "requests example_state = []"
    by (simp_all add: example_progress_state_def example_state_def)
  from palette_not_mutated[of example_state None "\<lambda>r. Resolved []" "Some example_file" 0 50
      "[\<lparr>color_id = ''1'', rgb = (255, 0, 0), color_note = None\<rparr>,
        \<lparr>color_id = ''2'', rgb = (0, 0, 255), color_note = Some ''blue''\<rparr>]"
      example_canvas "[]" example_file 50 True example_progress_state example_file] r h
  show ?thesis
    by (simp add: wire_color_def note_or_empty_def)
qed

section \<open>Proofs: colour sampler\<close>

lemma upto_m1_5: "[- 1..5::int] = [-1, 0, 1, 2, 3, 4, 5]"
  by (simp add: upto_rec1)

lemma upto_0_9: "[0..9::int] = [0, 1, 2, 3, 4, 5, 6, 7, 8, 9]"
  by (simp add: upto_rec1)

lemma corner_sample: "extractColorFromImage corner_env None None None = Some (Inr (3, 0, 0))"
  by (simp add: extractColorFromImage_def corner_env_def corner_image_def getImageData_def
      upto_0_9 get_pixel_def accumulate_def channel_means_def Math_round_def floor_eq_iff)

lemma corner_sample_v1: "extractColorFromImage_v1 corner_env None None = Some (Inr (8, 0, 0))"
  by (simp add: extractColorFromImage_v1_def corner_env_def corner_image_def sample_points_def
      upto_m1_5 get_pixel_def accumulate_def channel_means_def Math_round_def floor_eq_iff)


lemma foldl_accumulate:
  "foldl accumulate (r, g, b, c) data =
     (r + sum_list (map red data), g + sum_list (map green data),
      b + sum_list (map blue data), c + length data)"
  by (induction data arbitrary: r g b c)
     (auto simp: accumulate_def red_def green_def blue_def)

lemma sum_list_grid:
  assumes "distinct xs" "distinct ys"
  shows "sum_list (map g (concat (map (\<lambda>y. map (\<lambda>x. f x y) xs) ys)))
       = (\<Sum>(x, y) \<in> set xs \<times> set ys. g (f x y))"
proof -
  have "sum_list (map g (concat (map (\<lambda>y. map (\<lambda>x. f x y) xs) ys)))
      = (\<Sum>y\<leftarrow>ys. \<Sum>x\<leftarrow>xs. g (f x y))"
    by (induction ys) (simp_all add: comp_def)
  also have "\<dots> = (\<Sum>y \<in> set ys. \<Sum>x \<in> set xs. g (f x y))"
    using assms by (simp add: sum_list_distinct_conv_sum_set)
  also have "\<dots> = (\<Sum>x \<in> set xs. \<Sum>y \<in> set ys. g (f x y))"
    by (rule sum.swap)
  also have "\<dots> = (\<Sum>(x, y) \<in> set xs \<times> set ys. g (f x y))"
    by (simp add: sum.cartesian_product)
  finally show ?thesis .
qed

lemma length_grid:
  "length (concat (map (\<lambda>y. map (\<lambda>x. f x y) xs) ys)) = length xs * length ys"
  by (induction ys) simp_all


lemma getImageData_window:
  assumes "sx < ex" "sy < ey"
  shows "getImageData img sx sy (ex - sx) (ey - sy) =
     Some (concat (map (\<lambda>y. map (\<lambda>x. get_pixel img x y) [sx..ex - 1]) [sy..ey - 1]))"
proof -
  have "min sx (sx + (ex - sx)) = sx" "min sy (sy + (ey - sy)) = sy"
    "sx + \<bar>ex - sx\<bar> - 1 = ex - 1" "sy + \<bar>ey - sy\<bar> - 1 = ey - 1" "ex - sx \<noteq> 0" "ey - sy \<noteq> 0"
    using assms by simp_all
  then show ?thesis by (simp add: getImageData_def Let_def)
qed

lemma sample_window_grid:
  "sample_window img cx cy =
     set [max 0 (cx - 5)..min (int (img_width img)) (cx + 5) - 1]
     \<times> set [max 0 (cy - 5)..min (int (img_height img)) (cy + 5) - 1]"
  by (auto simp: sample_window_def)

lemma window_channel_sum:
  fixes ch :: "nat \<times> nat \<times> nat \<Rightarrow> nat"
  assumes "0 \<le> sx" "ex \<le> int (img_width img)" "0 \<le> sy" "ey \<le> int (img_height img)"
  shows "sum_list (map ch (concat (map (\<lambda>y. map (\<lambda>x. get_pixel img x y) [sx..ex - 1]) [sy..ey - 1])))
       = (\<Sum>(px, py) \<in> set [sx..ex - 1] \<times> set [sy..ey - 1]. ch (pixel img (nat px) (nat py)))"
proof -
  have "sum_list (map ch (concat (map (\<lambda>y. map (\<lambda>x. get_pixel img x y) [sx..ex - 1]) [sy..ey - 1])))
      = (\<Sum>(px, py) \<in> set [sx..ex - 1] \<times> set [sy..ey - 1]. ch (get_pixel img px py))"
    by (rule sum_list_grid) simp_all
  also have "\<dots> = (\<Sum>(px, py) \<in> set [sx..ex - 1] \<times> set [sy..ey - 1]. ch (pixel img (nat px) (nat py)))"
    using assms by (intro sum.cong) (auto simp: get_pixel_def)
  finally show ?thesis .
qed

lemma extractColorFromImage_window_mean:
  assumes env: "file_read env" "decoded env = Some img" "context_available env"
    and cx: "cx = (case x of None \<Rightarrow> int (img_width img div 2) | Some v \<Rightarrow> v)"
    and cy: "cy = (case y of None \<Rightarrow> int (img_height img div 2) | Some v \<Rightarrow> v)"
    and inside: "0 \<le> cx" "cx < int (img_width img)" "0 \<le> cy" "cy < int (img_height img)"
  shows "extractColorFromImage env x y None =
           Some (Inr (Math_round (window_mean img red (sample_window img cx cy)),
                      Math_round (window_mean img green (sample_window img cx cy)),
                      Math_round (window_mean img blue (sample_window img cx cy))))
     \<and> (cx, cy) \<in> sample_window img cx cy"
proof -
  define sx where "sx = max 0 (cx - 5)"
  define ex where "ex = min (int (img_width img)) (cx + 5)"
  define sy where "sy = max 0 (cy - 5)"
  define ey where "ey = min (int (img_height img)) (cy + 5)"
  have b: "sx < ex" "sy < ey" "0 \<le> sx" "ex \<le> int (img_width img)" "0 \<le> sy"
    "ey \<le> int (img_height img)"
    using inside by (simp_all add: sx_def ex_def sy_def ey_def)
  let ?data = "concat (map (\<lambda>y. map (\<lambda>x. get_pixel img x y) [sx..ex - 1]) [sy..ey - 1])"
  let ?W = "sample_window img cx cy"
  have W: "?W = set [sx..ex - 1] \<times> set [sy..ey - 1]"
    by (simp only: sample_window_grid sx_def ex_def sy_def ey_def)
  have len: "length ?data = card ?W"
    using b by (simp add: W length_grid card_cartesian_product)
  have sums: "sum_list (map ch ?data) = (\<Sum>(px, py) \<in> ?W. ch (pixel img (nat px) (nat py)))"
    for ch :: "nat \<times> nat \<times> nat \<Rightarrow> nat"
    unfolding W using b(3-6) by (rule window_channel_sum)
  have g: "getImageData img sx sy (ex - sx) (ey - sy) = Some ?data"
    using b(1,2) by (rule getImageData_window)
  have res: "extractColorFromImage env x y None =
      Some (Inr (channel_means (foldl accumulate (0, 0, 0, 0) ?data)))"
    using env g
    by (simp add: extractColorFromImage_def Let_def cx[symmetric] cy[symmetric]
        sx_def[symmetric] ex_def[symmetric] sy_def[symmetric] ey_def[symmetric])
  have cm: "channel_means (foldl accumulate (0, 0, 0, 0) ?data) =
      (Math_round (window_mean img red ?W), Math_round (window_mean img green ?W),
       Math_round (window_mean img blue ?W))"
    by (simp add: foldl_accumulate channel_means_def window_mean_def sums len)
  have mem: "(cx, cy) \<in> ?W" using inside by (simp add: sample_window_def)
  from res cm mem show ?thesis by simp
qed


lemma corner_sample_points: "length (sample_points corner_image 5 5 5) = 121"
  by (simp add: sample_points_def upto_m1_5)

lemma corner_window_mean:
  "Math_round (window_mean corner_image red (sample_window corner_image 5 5)) = 3"
proof -
  have "extractColorFromImage corner_env None None None =
           Some (Inr (Math_round (window_mean corner_image red (sample_window corner_image 5 5)),
                      Math_round (window_mean corner_image green (sample_window corner_image 5 5)),
                      Math_round (window_mean corner_image blue (sample_window corner_image 5 5))))
     \<and> (5, 5) \<in> sample_window corner_image 5 5"
    by (rule extractColorFromImage_window_mean[of corner_env corner_image 5 None 5 None])
       (simp_all add: corner_env_def corner_image_def)
  with corner_sample show ?thesis by simp
qed

text \<open>
  Claim C6 holds for \<open>extractColorFromImage\<close> of utils.ts: for a sample point inside the
  image it returns the rounded channel means over the square of side 10 around the
  point, cut to the image (lemma \<open>extractColorFromImage_window_mean\<close>). The second
  \<open>extractColorFromImage\<close> runs \<open>dx\<close> and \<open>dy\<close> from -5 to 5 inclusive and so averages 121
  samples, a square of side 11. On the 11 by 11 image whose four corners are red, sampled
  at its centre, it returns red 8 where the mean over a square of side 10 is 255/100,
  rounded 3, which is what the first function returns.
\<close>

theorem extractColorFromImage_v1_side_11:
  "extractColorFromImage_v1 corner_env None None = Some (Inr (8, 0, 0))
   \<and> length (sample_points corner_image 5 5 5) = 121
   \<and> extractColorFromImage corner_env None None None = Some (Inr (3, 0, 0))
   \<and> Math_round (window_mean corner_image red (sample_window corner_image 5 5)) = 3"
  using corner_sample_v1 corner_sample_points corner_sample corner_window_mean by simp

section \<open>Proofs: identifiers in the PaintLab component\<close>

lemma toString10_small:
  "toString10 1 = ''1''" "toString10 2 = ''2''" "toString10 3 = ''3''"
  "toString10 (Suc 0) = ''1''" "toString10 (Suc (Suc 0)) = ''2''"
  by (simp_all add: toString10.simps digit_char_def digit_chars_def)

lemma two_then_remove:
  "removeColor ''1'' (addManualColor (addManualColor [])) =
     [\<lparr>color_id = ''2'', rgb = (128, 128, 128), color_note = Some []\<rparr>]"
  by (simp add: addManualColor_def removeColor_def toString10_small)

text \<open>
  Claim C1 is not met by the component: the new id is \<open>(palette.length + 1).toString()\<close>,
  which is taken as soon as an entry has been removed. Two manual additions, the removal
  of \<open>"1"\<close>, and one more addition (manual or scanned) give a palette with the id \<open>"2"\<close>
  twice, although the ids were pairwise distinct before the last addition.
\<close>

theorem addManualColor_duplicate_id:
  "distinct (map color_id (removeColor ''1'' (addManualColor (addManualColor []))))
   \<and> map color_id (addManualColor (removeColor ''1'' (addManualColor (addManualColor []))))
       = [''2'', ''2'']
   \<and> \<not> distinct (map color_id
         (addManualColor (removeColor ''1'' (addManualColor (addManualColor [])))))
   \<and> \<not> distinct (map color_id
         (scanColor (Inr (10, 20, 30)) (removeColor ''1'' (addManualColor (addManualColor [])))))
   \<and> generateColorId (map color_id (removeColor ''1'' (addManualColor (addManualColor [])))) rnd
       = ''1''"
proof -
  have g: "generateColorId [''2''] rnd = ''1''"
    by (simp add: generateColorId_def loop_numeric.simps array_includes_def toString10_small)
  show ?thesis
    unfolding two_then_remove
    by (simp add: g addManualColor_def scanColor_def toString10_small)
qed

text \<open>
  What does hold: while nothing has been removed, that is, while the ids are \<open>"1"\<close> to
  \<open>"n"\<close> in order, an addition keeps them so, and they are pairwise distinct.
\<close>

lemma addManualColor_sequential:
  assumes "map color_id palette = map toString10 [1..<length palette + 1]"
  shows "map color_id (addManualColor palette) = map toString10 [1..<length (addManualColor palette) + 1]
     \<and> map color_id (scanColor (Inr c) palette) = map toString10 [1..<length (scanColor (Inr c) palette) + 1]
     \<and> distinct (map color_id (addManualColor palette))"
proof -
  have a: "map color_id (addManualColor palette) = map toString10 [1..<length (addManualColor palette) + 1]"
    using assms by (simp add: addManualColor_def)
  have b: "map color_id (scanColor (Inr c) palette) = map toString10 [1..<length (scanColor (Inr c) palette) + 1]"
    using assms by (simp add: scanColor_def)
  have "inj_on toString10 (set [1..<length (addManualColor palette) + 1])"
    by (rule inj_onI) (rule toString10_inj)
  then have "distinct (map toString10 [1..<length (addManualColor palette) + 1])"
    by (simp add: distinct_map)
  with a b show ?thesis by simp
qed


end
